theory Spec2Isabelle
  imports Main
begin

unbundle bit_operations_syntax

section \<open>Exceptions\<close>

text \<open>
  The exception classes that the code of \<^verbatim>\<open>providers.py\<close> raises, catches or lets pass.
  A value stands for the class the raised exception is an instance of: the six classes of
  the \<^verbatim>\<open>except\<close> clause of \<^verbatim>\<open>Provider._get\<close> (an instance of a subclass counts as the
  class), the built-in errors raised by the extraction and discovery code, and
  \<open>OtherError\<close> for every other subclass of \<^verbatim>\<open>Exception\<close>.
\<close>

datatype exn =
    UnicodeDecodeError
  | BadStatusError
  | TimeoutError
  | ClientOSError
  | ClientResponseError
  | ServerDisconnectedError
  | ValueError
  | KeyError
  | IndexError
  | TypeError
  | UnboundLocalError
  | OtherError string

text \<open>Sequencing of two steps, the first of which may raise.\<close>

fun traverse :: "('a \<Rightarrow> exn + 'b) \<Rightarrow> 'a list \<Rightarrow> exn + 'b list" where
  "traverse f [] = Inr []"
| "traverse f (x # xs) =
     (case f x of
        Inl e \<Rightarrow> Inl e
      | Inr y \<Rightarrow> (case traverse f xs of Inl e \<Rightarrow> Inl e | Inr ys \<Rightarrow> Inr (y # ys)))"

section \<open>The provider and its result set\<close>

text \<open>
  \<^verbatim>\<open>proto\<close> is whatever the catalogue passes: a tuple of strings such as
  \<^verbatim>\<open>('HTTP', 'HTTPS')\<close>, or a plain string, since \<^verbatim>\<open>('SOCKS4')\<close> is one.
\<close>

datatype proto = Tuple "string list" | Str string

type_synonym endpoint = "string \<times> string \<times> proto"

text \<open>
  The attributes of \<^verbatim>\<open>Provider\<close> that the pipeline reads: \<^verbatim>\<open>domain\<close> (set by \<^verbatim>\<open>__init__\<close>
  from the url, or a class attribute of the subclass), \<^verbatim>\<open>url\<close>, \<^verbatim>\<open>proto\<close>, \<^verbatim>\<open>_max_tries\<close>,
  \<^verbatim>\<open>_timeout\<close>, the permits of \<^verbatim>\<open>_sem_provider\<close>, and the set \<^verbatim>\<open>_proxies\<close>.
\<close>

record provider =
  domain :: string
  url :: "string option"
  proto :: proto
  max_tries :: int
  timeout :: int
  max_conn :: int
  proxies :: "endpoint set"

definition Provider_init ::
  "string \<Rightarrow> string option \<Rightarrow> proto \<Rightarrow> int \<Rightarrow> int \<Rightarrow> int \<Rightarrow> provider" where
  "Provider_init d u pr mc mt tmo =
     \<lparr>domain = d, url = u, proto = pr, max_tries = mt, timeout = tmo, max_conn = mc,
      proxies = {}\<rparr>"

text \<open>
  An extracted item is a sequence of strings (a tuple of \<^verbatim>\<open>findall\<close>, or the list that
  \<^verbatim>\<open>split(':')\<close> returns). \<^verbatim>\<open>for host, port in new\<close> unpacks it and raises
  \<^verbatim>\<open>ValueError\<close> unless it has exactly two elements.
\<close>

type_synonym item = "string list"

fun unpack2 :: "item \<Rightarrow> exn + (string \<times> string)" where
  "unpack2 [host, port] = Inr (host, port)"
| "unpack2 _ = Inl ValueError"

text \<open>
  \<^verbatim>\<open>
  @proxies.setter
  def proxies(self, new):
      new = [(host, port, self.proto) for host, port in new if port]
      self._proxies.update(new)
  \<close>
  The comprehension is evaluated before the update, so an item that does not unpack
  leaves the set as it was.
\<close>

definition proxies_setter :: "provider \<Rightarrow> item list \<Rightarrow> exn + provider" where
  "proxies_setter self new =
     (case traverse unpack2 new of
        Inl e \<Rightarrow> Inl e
      | Inr pairs \<Rightarrow>
          Inr (self\<lparr>proxies := proxies self \<union>
                 set (map (\<lambda>(host, port). (host, port, proto self))
                        (filter (\<lambda>(host, port). port \<noteq> []) pairs))\<rparr>))"

text \<open>A run merges the extraction results of its pages one after another.\<close>

fun merges :: "provider \<Rightarrow> item list list \<Rightarrow> exn + provider" where
  "merges self [] = Inr self"
| "merges self (new # rest) =
     (case proxies_setter self new of
        Inl e \<Rightarrow> Inl e
      | Inr self' \<Rightarrow> merges self' rest)"

definition then_merge :: "exn + provider \<Rightarrow> item list \<Rightarrow> exn + provider" where
  "then_merge r new = (case r of Inl e \<Rightarrow> Inl e | Inr self \<Rightarrow> proxies_setter self new)"

section \<open>Requests, the network and the log\<close>

text \<open>
  A value of a request body: the form fields are strings, integers or \<^verbatim>\<open>None\<close>.
\<close>

datatype pyval = PStr string | PInt int | PNone

text \<open>
  The arguments of \<^verbatim>\<open>get\<close>, \<^verbatim>\<open>_get\<close> and \<^verbatim>\<open>_find_on_page\<close>:
  \<^verbatim>\<open>(url, data=None, headers=None, method='GET')\<close>.
\<close>

record request =
  req_url :: string
  req_data :: "(string \<times> pyval) list option"
  req_headers :: "(string \<times> string) list option"
  req_method :: string

definition GET :: "string \<Rightarrow> request" where
  "GET u = \<lparr>req_url = u, req_data = None, req_headers = None, req_method = ''GET''\<rparr>"

text \<open>
  What one pass through
  \<^verbatim>\<open>async with self._sem_provider, self._session.request(...) as resp\<close> does:
  it raises before a response is there, or a response with a status arrives, whose
  \<^verbatim>\<open>await resp.text()\<close> gives the decoded text or raises.
\<close>

datatype outcome = Raised exn | Responded int "exn + string"

datatype level = DEBUG | ERROR

datatype message =
    Bad_status string int string
  | Request_failed string exn
  | Find_proxies_error string exn
  | Got_0_proxies string
  | Proxies_added int nat string

type_synonym log_entry = "level \<times> message"

text \<open>
  The state a provider's run works on: the provider object, the state of its extraction
  strategy (the \<^verbatim>\<open>charEqNum\<close> table of the cipher variants), the log, and the world
  behind the network, which answers each request and moves on.
\<close>

record ('c, 'w) state =
  self :: provider
  ext :: 'c
  logs :: "log_entry list"
  world :: 'w

type_synonym 'w net = "int \<Rightarrow> request \<Rightarrow> 'w \<Rightarrow> outcome \<times> 'w"

definition log_debug :: "message \<Rightarrow> ('c, 'w) state \<Rightarrow> ('c, 'w) state" where
  "log_debug m st = st\<lparr>logs := logs st @ [(DEBUG, m)]\<rparr>"

definition log_error :: "message \<Rightarrow> ('c, 'w) state \<Rightarrow> ('c, 'w) state" where
  "log_error m st = st\<lparr>logs := logs st @ [(ERROR, m)]\<rparr>"

section \<open>Fetching a page\<close>

text \<open>The classes of the \<^verbatim>\<open>except\<close> clause of \<^verbatim>\<open>_get\<close>.\<close>

fun caught :: "exn \<Rightarrow> bool" where
  "caught UnicodeDecodeError = True"
| "caught BadStatusError = True"
| "caught TimeoutError = True"
| "caught ClientOSError = True"
| "caught ClientResponseError = True"
| "caught ServerDisconnectedError = True"
| "caught _ = False"

text \<open>
  The handler of \<^verbatim>\<open>_get\<close>: \<^verbatim>\<open>page = ''\<close> and a debug line for a caught class; any
  other exception leaves \<^verbatim>\<open>_get\<close>.
\<close>

definition get_except ::
  "string \<Rightarrow> exn \<Rightarrow> ('c, 'w) state \<Rightarrow> (exn + string) \<times> ('c, 'w) state" where
  "get_except u e st =
     (if caught e then (Inr [], log_debug (Request_failed u e) st) else (Inl e, st))"

text \<open>
  \<^verbatim>\<open>Provider._get\<close>: one request. The text is read first; a status other than 200 logs
  the page at debug level and raises \<^verbatim>\<open>BadStatusError\<close> inside the \<^verbatim>\<open>try\<close>.
\<close>

definition Provider__get ::
  "'w net \<Rightarrow> request \<Rightarrow> ('c, 'w) state \<Rightarrow> (exn + string) \<times> ('c, 'w) state" where
  "Provider__get net req st =
     (case net (timeout (self st)) req (world st) of
        (out, w) \<Rightarrow>
          (let st1 = st\<lparr>world := w\<rparr> in
           case out of
             Raised e \<Rightarrow> get_except (req_url req) e st1
           | Responded status (Inl e) \<Rightarrow> get_except (req_url req) e st1
           | Responded status (Inr page) \<Rightarrow>
               if status \<noteq> 200
               then get_except (req_url req) BadStatusError
                      (log_debug (Bad_status (req_url req) status page) st1)
               else (Inr page, st1)))"

text \<open>
  \<^verbatim>\<open>
  async def get(self, url, data=None, headers=None, method='GET'):
      for _ in range(self._max_tries):
          page = await self._get(url, data=data, headers=headers, method=method)
          if page:
              break
      return page
  \<close>
  The loop over an arbitrary fetch step \<open>f\<close>; \<open>page\<close> is \<open>None\<close> until the first
  assignment, and \<^verbatim>\<open>return page\<close> of an unassigned name raises.
\<close>

fun get_loop ::
  "('s \<Rightarrow> (exn + string) \<times> 's) \<Rightarrow> nat \<Rightarrow> string option \<Rightarrow> 's \<Rightarrow> (exn + string) \<times> 's" where
  "get_loop f 0 page s =
     (case page of None \<Rightarrow> (Inl UnboundLocalError, s) | Some pg \<Rightarrow> (Inr pg, s))"
| "get_loop f (Suc n) page s =
     (case f s of
        (Inl e, s') \<Rightarrow> (Inl e, s')
      | (Inr pg, s') \<Rightarrow> if pg \<noteq> [] then (Inr pg, s') else get_loop f n (Some pg) s')"

definition get :: "int \<Rightarrow> ('s \<Rightarrow> (exn + string) \<times> 's) \<Rightarrow> 's \<Rightarrow> (exn + string) \<times> 's" where
  "get tries f s = get_loop f (nat tries) None s"

definition Provider_get ::
  "'w net \<Rightarrow> request \<Rightarrow> ('c, 'w) state \<Rightarrow> (exn + string) \<times> ('c, 'w) state" where
  "Provider_get net req st = get (max_tries (self st)) (Provider__get net req) st"

section \<open>The per-page pipeline\<close>

text \<open>
  An extraction strategy (\<^verbatim>\<open>find_proxies\<close>) gets the page and the strategy's own state;
  it returns the items or raises, and leaves a state behind in both cases.
\<close>

type_synonym 'c strategy = "string \<Rightarrow> 'c \<Rightarrow> (exn + item list) \<times> 'c"

text \<open>
  \<^verbatim>\<open>
  async def _find_on_page(self, url, data=None, headers=None, method='GET'):
      page = await self.get(url, data=data, headers=headers, method=method)
      if not page:
          return
      oldcount = len(self.proxies)
      try:
          received = self.find_proxies(page)
      except Exception as e:
          received = []
          log.error('Error when executing find_proxies.'
                    'Domain: %s; Error: %r' % (self.domain, e))
      if not received:
          log.error(f'Got 0 proxies from {url}')
          return
      self.proxies = received
      added = len(self.proxies) - oldcount
      log.debug('%d(%d) proxies added(received) from %s' % (added, len(received), url))
  \<close>
\<close>

definition try_find_proxies ::
  "'c strategy \<Rightarrow> string \<Rightarrow> ('c, 'w) state \<Rightarrow> item list \<times> ('c, 'w) state" where
  "try_find_proxies find_proxies page st =
     (case find_proxies page (ext st) of
        (Inr received, c) \<Rightarrow> (received, st\<lparr>ext := c\<rparr>)
      | (Inl e, c) \<Rightarrow>
          ([], log_error (Find_proxies_error (domain (self st)) e) (st\<lparr>ext := c\<rparr>)))"

definition Provider__find_on_page ::
  "'c strategy \<Rightarrow> 'w net \<Rightarrow> request \<Rightarrow> ('c, 'w) state \<Rightarrow> (exn + unit) \<times> ('c, 'w) state" where
  "Provider__find_on_page find_proxies net req st =
     (case Provider_get net req st of
        (Inl e, st1) \<Rightarrow> (Inl e, st1)
      | (Inr page, st1) \<Rightarrow>
          if page = [] then (Inr (), st1)
          else
            (let oldcount = card (proxies (self st1)) in
             case try_find_proxies find_proxies page st1 of
               (received, st2) \<Rightarrow>
                 if received = [] then (Inr (), log_error (Got_0_proxies (req_url req)) st2)
                 else
                   (case proxies_setter (self st2) received of
                      Inl e \<Rightarrow> (Inl e, st2)
                    | Inr self' \<Rightarrow>
                        (Inr (),
                         log_debug
                           (Proxies_added (int (card (proxies self')) - int oldcount)
                              (length received) (req_url req))
                           (st2\<lparr>self := self'\<rparr>)))))"

text \<open>
  \<^verbatim>\<open>_find_on_pages\<close> takes a list of url strings or of keyword dictionaries. A list that
  starts with a string goes through \<^verbatim>\<open>set(urls)\<close>, which drops repeated urls and raises
  \<^verbatim>\<open>TypeError\<close> on a dictionary. \<^verbatim>\<open>asyncio.gather\<close> interleaves the page tasks at their
  awaits; here they run one after another in the order of the list, which is one of the
  schedules, and the first exception ends the batch.
\<close>

datatype target = Url string | Kwargs request

fun is_dict :: "target \<Rightarrow> bool" where
  "is_dict (Kwargs _) = True"
| "is_dict (Url _) = False"

fun target_request :: "target \<Rightarrow> request" where
  "target_request (Url u) = GET u"
| "target_request (Kwargs r) = r"

definition py_set :: "target list \<Rightarrow> exn + target list" where
  "py_set urls = (if list_ex is_dict urls then Inl TypeError else Inr (remdups urls))"

fun run_tasks ::
  "'c strategy \<Rightarrow> 'w net \<Rightarrow> target list \<Rightarrow> ('c, 'w) state \<Rightarrow> (exn + unit) \<times> ('c, 'w) state" where
  "run_tasks find_proxies net [] st = (Inr (), st)"
| "run_tasks find_proxies net (t # ts) st =
     (case Provider__find_on_page find_proxies net (target_request t) st of
        (Inl e, st') \<Rightarrow> (Inl e, st')
      | (Inr _, st') \<Rightarrow> run_tasks find_proxies net ts st')"

definition Provider__find_on_pages ::
  "'c strategy \<Rightarrow> 'w net \<Rightarrow> target list \<Rightarrow> ('c, 'w) state \<Rightarrow> (exn + unit) \<times> ('c, 'w) state" where
  "Provider__find_on_pages find_proxies net urls st =
     (if urls = [] then (Inr (), st)
      else
        (case (if is_dict (hd urls) then Inr urls else py_set urls) of
           Inl e \<Rightarrow> (Inl e, st)
         | Inr us \<Rightarrow> run_tasks find_proxies net us st))"

section \<open>Regular expressions\<close>

text \<open>
  The patterns of the discovery and extraction code, matched the way Python's \<^verbatim>\<open>re\<close>
  matches them: by backtracking, greedy repetition first, the first way that succeeds
  wins. Page text is a string of the characters U+0000 to U+00FF, and the classes \<^verbatim>\<open>\d\<close>,
  \<^verbatim>\<open>\s\<close> and \<^verbatim>\<open>\w\<close> are the ones Python has for \<^verbatim>\<open>str\<close> patterns on that range:
  \<^verbatim>\<open>\s\<close> includes U+001C to U+001F, U+0085 and U+00A0, and \<^verbatim>\<open>\w\<close> the letters and
  numeric characters above U+007F.
\<close>

datatype re =
    Cls "char \<Rightarrow> bool"
  | Bnd
  | Eps
  | Cat re re
  | Opt re
  | Star re
  | Grp nat re

text \<open>
  A position of the matcher: the character before it (for \<^verbatim>\<open>\b\<close>), the text still to
  read, and the groups captured so far.
\<close>

record mstate =
  prev :: "char option"
  rest :: string
  caps :: "(nat \<times> string) list"

definition is_digit :: "char \<Rightarrow> bool" where
  "is_digit c = (c \<in> set ''0123456789'')"

definition is_lower :: "char \<Rightarrow> bool" where
  "is_lower c = (c \<in> set ''abcdefghijklmnopqrstuvwxyz'')"

definition is_upper :: "char \<Rightarrow> bool" where
  "is_upper c = (c \<in> set ''ABCDEFGHIJKLMNOPQRSTUVWXYZ'')"

definition is_word_high :: "char \<Rightarrow> bool" where
  "is_word_high c =
     (c \<in> set
       [CHR 0xAA, CHR 0xB2, CHR 0xB3, CHR 0xB5, CHR 0xB9, CHR 0xBA, CHR 0xBC, CHR 0xBD,
        CHR 0xBE, CHR 0xC0, CHR 0xC1, CHR 0xC2, CHR 0xC3, CHR 0xC4, CHR 0xC5, CHR 0xC6,
        CHR 0xC7, CHR 0xC8, CHR 0xC9, CHR 0xCA, CHR 0xCB, CHR 0xCC, CHR 0xCD, CHR 0xCE,
        CHR 0xCF, CHR 0xD0, CHR 0xD1, CHR 0xD2, CHR 0xD3, CHR 0xD4, CHR 0xD5, CHR 0xD6,
        CHR 0xD8, CHR 0xD9, CHR 0xDA, CHR 0xDB, CHR 0xDC, CHR 0xDD, CHR 0xDE, CHR 0xDF,
        CHR 0xE0, CHR 0xE1, CHR 0xE2, CHR 0xE3, CHR 0xE4, CHR 0xE5, CHR 0xE6, CHR 0xE7,
        CHR 0xE8, CHR 0xE9, CHR 0xEA, CHR 0xEB, CHR 0xEC, CHR 0xED, CHR 0xEE, CHR 0xEF,
        CHR 0xF0, CHR 0xF1, CHR 0xF2, CHR 0xF3, CHR 0xF4, CHR 0xF5, CHR 0xF6, CHR 0xF8,
        CHR 0xF9, CHR 0xFA, CHR 0xFB, CHR 0xFC, CHR 0xFD, CHR 0xFE, CHR 0xFF])"

definition is_word :: "char \<Rightarrow> bool" where
  "is_word c =
     (is_digit c \<or> is_lower c \<or> is_upper c \<or> c = CHR ''_'' \<or> is_word_high c)"

definition is_space :: "char \<Rightarrow> bool" where
  "is_space c =
     (c \<in> set [CHR '' '', CHR 0x09, CHR 0x0A, CHR 0x0B, CHR 0x0C, CHR 0x0D,
                CHR 0x1C, CHR 0x1D, CHR 0x1E, CHR 0x1F, CHR 0x85, CHR 0xA0])"

definition is_quote :: "char \<Rightarrow> bool" where
  "is_quote c = (c = CHR 0x27 \<or> c = CHR 0x22)"

definition word_opt :: "char option \<Rightarrow> bool" where
  "word_opt x = (case x of None \<Rightarrow> False | Some c \<Rightarrow> is_word c)"

definition next_char :: "string \<Rightarrow> char option" where
  "next_char s = (case s of [] \<Rightarrow> None | c # _ \<Rightarrow> Some c)"

text \<open>
  All the ways a pattern matches at a position, best first. A repetition gives up an
  iteration that consumes nothing.
\<close>

function rmatch :: "re \<Rightarrow> mstate \<Rightarrow> mstate list" where
  "rmatch (Cls P) m =
     (case rest m of
        [] \<Rightarrow> []
      | c # cs \<Rightarrow> if P c then [m\<lparr>prev := Some c, rest := cs\<rparr>] else [])"
| "rmatch Bnd m = (if word_opt (prev m) \<noteq> word_opt (next_char (rest m)) then [m] else [])"
| "rmatch Eps m = [m]"
| "rmatch (Cat a b) m = concat (map (rmatch b) (rmatch a m))"
| "rmatch (Opt a) m = rmatch a m @ [m]"
| "rmatch (Star a) m =
     concat (map (\<lambda>m'. if length (rest m') < length (rest m) then rmatch (Star a) m' else [])
               (rmatch a m)) @ [m]"
| "rmatch (Grp n a) m =
     map (\<lambda>m'. m'\<lparr>caps := (n, take (length (rest m) - length (rest m')) (rest m)) # caps m'\<rparr>)
       (rmatch a m)"
  by pat_completeness auto
termination
  by (relation "inv_image (less_than <*lex*> less_than) (\<lambda>(r, m). (size r, length (rest m)))")
    auto

definition Lit :: "char \<Rightarrow> re" where
  "Lit c = Cls (\<lambda>x. x = c)"

definition Seq :: "re list \<Rightarrow> re" where
  "Seq rs = foldr Cat rs Eps"

definition Lits :: "string \<Rightarrow> re" where
  "Lits s = Seq (map Lit s)"

definition Plus :: "re \<Rightarrow> re" where
  "Plus r = Cat r (Star r)"

text \<open>
  The first match at a position, as the number of characters it takes and its groups.
  After an empty match the search goes on at the same position for a match that is not
  empty (\<open>must_advance\<close>), as \<^verbatim>\<open>findall\<close> and \<^verbatim>\<open>sub\<close> do.
\<close>

definition first_match ::
  "re \<Rightarrow> bool \<Rightarrow> char option \<Rightarrow> string \<Rightarrow> (nat \<times> (nat \<times> string) list) option" where
  "first_match r must_advance p s =
     (case filter (\<lambda>(n, cs). \<not> must_advance \<or> 0 < n)
             (map (\<lambda>m. (length s - length (rest m), caps m))
                (rmatch r \<lparr>prev = p, rest = s, caps = []\<rparr>)) of
        [] \<Rightarrow> None
      | x # _ \<Rightarrow> Some x)"

lemma first_match_advance:
  "first_match r True p s = Some (n, cs) \<Longrightarrow> 0 < n"
proof -
  assume a: "first_match r True p s = Some (n, cs)"
  define xs where "xs = filter (\<lambda>(n, cs). \<not> True \<or> 0 < n)
             (map (\<lambda>m. (length s - length (rest m), caps m))
                (rmatch r \<lparr>prev = p, rest = s, caps = []\<rparr>))"
  from a have "(n, cs) \<in> set xs"
    unfolding first_match_def xs_def[symmetric] by (cases xs) auto
  then show ?thesis unfolding xs_def by auto
qed

lemma first_match_le:
  "first_match r b p s = Some (n, cs) \<Longrightarrow> n \<le> length s"
proof -
  assume a: "first_match r b p s = Some (n, cs)"
  define xs where "xs = filter (\<lambda>(n, cs). \<not> b \<or> 0 < n)
             (map (\<lambda>m. (length s - length (rest m), caps m))
                (rmatch r \<lparr>prev = p, rest = s, caps = []\<rparr>))"
  from a have "(n, cs) \<in> set xs"
    unfolding first_match_def xs_def[symmetric] by (cases xs) auto
  then show ?thesis unfolding xs_def by auto
qed

text \<open>
  The scan shared by \<^verbatim>\<open>findall\<close> and \<^verbatim>\<open>sub\<close>: left to right, the matches do not
  overlap, and a character no match starts at is skipped.
\<close>

datatype tok = Skip char | Match string "(nat \<times> string) list"

function scan :: "re \<Rightarrow> bool \<Rightarrow> char option \<Rightarrow> string \<Rightarrow> tok list" where
  "scan r must_advance p s =
     (case first_match r must_advance p s of
        Some (n, cs) \<Rightarrow>
          Match (take n s) cs #
            (if n = 0 then scan r True p s
             else scan r False (Some (s ! (n - 1))) (drop n s))
      | None \<Rightarrow>
          (case s of
             [] \<Rightarrow> []
           | c # s' \<Rightarrow> Skip c # scan r False (Some c) s'))"
  by pat_completeness auto
termination
  by (relation "measure (\<lambda>(r, b, p, s). 2 * length s + (if b then 0 else 1))")
    (auto dest: first_match_advance first_match_le)

declare scan.simps [simp del]

text \<open>A group that took no part in the match reads as the empty string in \<^verbatim>\<open>findall\<close>.\<close>

definition grp :: "(nat \<times> string) list \<Rightarrow> nat \<Rightarrow> string" where
  "grp cs n = (case map_of cs n of None \<Rightarrow> [] | Some g \<Rightarrow> g)"

fun matches :: "tok list \<Rightarrow> (nat \<times> string) list list" where
  "matches [] = []"
| "matches (Skip c # ts) = matches ts"
| "matches (Match whole cs # ts) = cs # matches ts"

text \<open>\<^verbatim>\<open>re.findall\<close> of a pattern with one group, and of a pattern with two.\<close>

definition findall1 :: "re \<Rightarrow> string \<Rightarrow> string list" where
  "findall1 r s = map (\<lambda>cs. grp cs 1) (matches (scan r False None s))"

definition findall2 :: "re \<Rightarrow> string \<Rightarrow> (string \<times> string) list" where
  "findall2 r s = map (\<lambda>cs. (grp cs 1, grp cs 2)) (matches (scan r False None s))"

text \<open>
  \<^verbatim>\<open>re.sub(pattern, function, page)\<close>: every match is replaced by what the function
  returns for it; an exception of the function ends the substitution.
\<close>

fun sub_tok :: "((nat \<times> string) list \<Rightarrow> exn + string) \<Rightarrow> tok \<Rightarrow> exn + string" where
  "sub_tok repl (Skip c) = Inr [c]"
| "sub_tok repl (Match whole cs) = repl cs"

definition re_sub ::
  "re \<Rightarrow> ((nat \<times> string) list \<Rightarrow> exn + string) \<Rightarrow> string \<Rightarrow> exn + string" where
  "re_sub r repl s =
     (case traverse (sub_tok repl) (scan r False None s) of
        Inl e \<Rightarrow> Inl e
      | Inr parts \<Rightarrow> Inr (concat parts))"

section \<open>Strings and integers of Python\<close>

text \<open>\<^verbatim>\<open>s.split(sep)\<close> for a separator of one character.\<close>

fun split_on :: "char \<Rightarrow> string \<Rightarrow> string list" where
  "split_on sep [] = [[]]"
| "split_on sep (c # s) =
     (if c = sep then [] # split_on sep s
      else (case split_on sep s of [] \<Rightarrow> [[c]] | x # xs \<Rightarrow> (c # x) # xs))"

text \<open>\<^verbatim>\<open>s.strip(chars)\<close>.\<close>

definition strip_chars :: "string \<Rightarrow> string \<Rightarrow> string" where
  "strip_chars chars s =
     rev (dropWhile (\<lambda>c. c \<in> set chars) (rev (dropWhile (\<lambda>c. c \<in> set chars) s)))"

definition digit_val :: "char \<Rightarrow> int" where
  "digit_val c = int (length (takeWhile (\<lambda>d. d \<noteq> c) ''0123456789''))"

text \<open>
  \<^verbatim>\<open>int(s)\<close> for the strings the patterns hand to it, which consist of lower-case letters
  and digits: the non-empty digit strings are numbers, everything else raises
  \<^verbatim>\<open>ValueError\<close>.
\<close>

definition py_int :: "string \<Rightarrow> exn + int" where
  "py_int s =
     (if s \<noteq> [] \<and> list_all is_digit s
      then Inr (foldl (\<lambda>a c. 10 * a + digit_val c) 0 s)
      else Inl ValueError)"

text \<open>\<^verbatim>\<open>str(n)\<close> and \<^verbatim>\<open>'%d' % n\<close> of an integer.\<close>

fun str_nat :: "nat \<Rightarrow> string" where
  "str_nat n =
     (if n < 10 then [''0123456789'' ! n]
      else str_nat (n div 10) @ [''0123456789'' ! (n mod 10)])"

declare str_nat.simps [simp del]

definition str_int :: "int \<Rightarrow> string" where
  "str_int i = (if i < 0 then CHR ''-'' # str_nat (nat (- i)) else str_nat (nat i))"

text \<open>\<^verbatim>\<open>max(xs)\<close> of a list: \<^verbatim>\<open>ValueError\<close> on the empty list.\<close>

fun py_max :: "int list \<Rightarrow> exn + int" where
  "py_max [] = Inl ValueError"
| "py_max (x # xs) = Inr (fold max xs x)"

section \<open>Cipher-substitution extraction\<close>

text \<open>
  The baseline \<^verbatim>\<open>_find_proxies\<close> is \<^verbatim>\<open>self._pattern.findall(page)\<close> with
  \<^verbatim>\<open>IPPortPatternGlobal\<close> of \<^verbatim>\<open>utils\<close>; the strategies below take it as the parameter
  \<open>pattern_findall\<close>.
\<close>

subsection \<open>\<^verbatim>\<open>Xseo_in\<close>\<close>

text \<open>\<^verbatim>\<open>expPortOnJS = r'\(""\+(?P<chars>[a-z+]+)\)'\<close>\<close>

definition Xseo_in_expPortOnJS :: re where
  \<open>Xseo_in_expPortOnJS =
     Seq [Lits ''(""+'', Grp 1 (Plus (Cls (\<lambda>c. is_lower c \<or> c = CHR ''+''))), Lit CHR '')'']\<close>

text \<open>\<^verbatim>\<open>expCharNum = r'\b(?P<char>[a-z])=(?P<num>\d);'\<close>\<close>

definition Xseo_in_expCharNum :: re where
  "Xseo_in_expCharNum =
     Seq [Bnd, Grp 1 (Cls is_lower), Lit CHR ''='', Grp 2 (Cls is_digit), Lit CHR '';'']"

text \<open>
  \<^verbatim>\<open>{char: i for char, i in re.findall(expCharNum, page)}\<close>: a later definition of a
  symbol replaces the earlier one.
\<close>

definition dict_of :: "(string \<times> 'v) list \<Rightarrow> (string \<rightharpoonup> 'v)" where
  "dict_of kvs = foldl (\<lambda>m (k, v). m(k \<mapsto> v)) Map.empty kvs"

definition lookup :: "(string \<rightharpoonup> 'v) \<Rightarrow> string \<Rightarrow> exn + 'v" where
  "lookup m k = (case m k of None \<Rightarrow> Inl KeyError | Some v \<Rightarrow> Inr v)"

text \<open>
  \<^verbatim>\<open>
  def char_js_port_to_num(self, matchobj):
      chars = matchobj.groups()[0]
      num = ''.join([self.charEqNum[ch] for ch in chars if ch != '+'])
      return num
  \<close>
\<close>

definition Xseo_in_char_js_port_to_num ::
  "(string \<rightharpoonup> string) \<Rightarrow> (nat \<times> string) list \<Rightarrow> exn + string" where
  "Xseo_in_char_js_port_to_num charEqNum cs =
     (let chars = grp cs 1 in
      case traverse (\<lambda>ch. lookup charEqNum [ch]) (filter (\<lambda>ch. ch \<noteq> CHR ''+'') chars) of
        Inl e \<Rightarrow> Inl e
      | Inr digits \<Rightarrow> Inr (concat digits))"

text \<open>
  \<^verbatim>\<open>
  def find_proxies(self, page):
      self.charEqNum = {char: i for char, i in re.findall(expCharNum, page)}
      page = re.sub(expPortOnJS, self.char_js_port_to_num, page)
      return self._find_proxies(page)
  \<close>
  \<open>Xseo_in_decode\<close> is the rewritten page; \<^verbatim>\<open>find_proxies\<close> runs the baseline pattern
  over it.
\<close>

definition Xseo_in_decode :: "string \<Rightarrow> exn + string" where
  "Xseo_in_decode page =
     re_sub Xseo_in_expPortOnJS
       (Xseo_in_char_js_port_to_num (dict_of (findall2 Xseo_in_expCharNum page))) page"

definition Xseo_in_find_proxies ::
  "(string \<Rightarrow> item list) \<Rightarrow> (string \<rightharpoonup> string) strategy" where
  "Xseo_in_find_proxies pattern_findall page charEqNum0 =
     (let charEqNum = dict_of (findall2 Xseo_in_expCharNum page) in
      case Xseo_in_decode page of
        Inl e \<Rightarrow> (Inl e, charEqNum)
      | Inr page' \<Rightarrow> (Inr (pattern_findall page'), charEqNum))"

subsection \<open>\<^verbatim>\<open>Spys_ru\<close>\<close>

text \<open>\<^verbatim>\<open>expPortOnJS = r'(?P<js_port_code>(?:\+\([a-z0-9^+]+\))+)'\<close>\<close>

definition Spys_ru_expPortOnJS :: re where
  "Spys_ru_expPortOnJS =
     Grp 1 (Plus (Seq [Lits ''+('',
                       Plus (Cls (\<lambda>c. is_lower c \<or> is_digit c \<or> c = CHR ''^'' \<or> c = CHR ''+'')),
                       Lit CHR '')'']))"

text \<open>\<^verbatim>\<open>expCharNum = r'[>;]{1}(?P<char>[a-z\d]{4,})=(?P<num>[a-z\d\^]+)'\<close>\<close>

definition Spys_ru_expCharNum :: re where
  "Spys_ru_expCharNum =
     (let an = Cls (\<lambda>c. is_lower c \<or> is_digit c) in
      Seq [Cls (\<lambda>c. c = CHR ''>'' \<or> c = CHR '';''),
           Grp 1 (Seq [an, an, an, an, Star an]),
           Lit CHR ''='',
           Grp 2 (Plus (Cls (\<lambda>c. is_lower c \<or> is_digit c \<or> c = CHR ''^'')))])"

text \<open>
  One turn of the loop of \<^verbatim>\<open>Spys_ru.find_proxies\<close>:
  \<^verbatim>\<open>
  for char, num in res:
      if '^' in num:
          digit, tochar = num.split('^')
          num = int(digit) ^ self.charEqNum[tochar]
      self.charEqNum[char] = int(num)
  \<close>
\<close>

definition Spys_ru_define ::
  "(string \<rightharpoonup> int) \<Rightarrow> string \<times> string \<Rightarrow> exn + (string \<rightharpoonup> int)" where
  "Spys_ru_define charEqNum cn =
     (case cn of
        (char, num) \<Rightarrow>
          if CHR ''^'' \<in> set num then
            (case split_on CHR ''^'' num of
               [digit, tochar] \<Rightarrow>
                 (case py_int digit of
                    Inl e \<Rightarrow> Inl e
                  | Inr d \<Rightarrow>
                      (case lookup charEqNum tochar of
                         Inl e \<Rightarrow> Inl e
                       | Inr v \<Rightarrow> Inr (charEqNum(char \<mapsto> d XOR v))))
             | _ \<Rightarrow> Inl ValueError)
          else
            (case py_int num of
               Inl e \<Rightarrow> Inl e
             | Inr v \<Rightarrow> Inr (charEqNum(char \<mapsto> v))))"

text \<open>
  \<^verbatim>\<open>charEqNum\<close> is a dictionary of the class, changed in place: what the loop stored
  before an exception stays, and so does the table from one page to the next.
\<close>

fun Spys_ru_table ::
  "(string \<rightharpoonup> int) \<Rightarrow> (string \<times> string) list \<Rightarrow> exn option \<times> (string \<rightharpoonup> int)" where
  "Spys_ru_table charEqNum [] = (None, charEqNum)"
| "Spys_ru_table charEqNum (cn # res) =
     (case Spys_ru_define charEqNum cn of
        Inl e \<Rightarrow> (Some e, charEqNum)
      | Inr charEqNum' \<Rightarrow> Spys_ru_table charEqNum' res)"

text \<open>
  \<^verbatim>\<open>
  def char_js_port_to_num(self, matchobj):
      chars = matchobj.groups()[0].split('+')
      num = ''
      for numOfChars in chars[1:]:  # first - is ''
          var1, var2 = numOfChars.strip('()').split('^')
          digit = self.charEqNum[var1] ^ self.charEqNum[var2]
          num += str(digit)
      return num
  \<close>
\<close>

definition Spys_ru_digit :: "(string \<rightharpoonup> int) \<Rightarrow> string \<Rightarrow> exn + string" where
  "Spys_ru_digit charEqNum numOfChars =
     (case split_on CHR ''^'' (strip_chars ''()'' numOfChars) of
        [var1, var2] \<Rightarrow>
          (case lookup charEqNum var1 of
             Inl e \<Rightarrow> Inl e
           | Inr a \<Rightarrow>
               (case lookup charEqNum var2 of
                  Inl e \<Rightarrow> Inl e
                | Inr b \<Rightarrow> Inr (str_int (a XOR b))))
      | _ \<Rightarrow> Inl ValueError)"

definition Spys_ru_char_js_port_to_num ::
  "(string \<rightharpoonup> int) \<Rightarrow> (nat \<times> string) list \<Rightarrow> exn + string" where
  "Spys_ru_char_js_port_to_num charEqNum cs =
     (let chars = split_on CHR ''+'' (grp cs 1) in
      case traverse (Spys_ru_digit charEqNum) (tl chars) of
        Inl e \<Rightarrow> Inl e
      | Inr digits \<Rightarrow> Inr (concat digits))"

text \<open>
  \<^verbatim>\<open>
  def find_proxies(self, page):
      res = re.findall(expCharNum, page)
      for char, num in res: ...
      page = re.sub(expPortOnJS, self.char_js_port_to_num, page)
      return self._find_proxies(page)
  \<close>
  \<open>Spys_ru_decode\<close> is the rewritten page together with the table left behind.
\<close>

definition Spys_ru_decode ::
  "string \<Rightarrow> (string \<rightharpoonup> int) \<Rightarrow> (exn + string) \<times> (string \<rightharpoonup> int)" where
  "Spys_ru_decode page charEqNum0 =
     (case Spys_ru_table charEqNum0 (findall2 Spys_ru_expCharNum page) of
        (Some e, charEqNum) \<Rightarrow> (Inl e, charEqNum)
      | (None, charEqNum) \<Rightarrow>
          (re_sub Spys_ru_expPortOnJS (Spys_ru_char_js_port_to_num charEqNum) page,
           charEqNum))"

definition Spys_ru_find_proxies ::
  "(string \<Rightarrow> item list) \<Rightarrow> (string \<rightharpoonup> int) strategy" where
  "Spys_ru_find_proxies pattern_findall page charEqNum0 =
     (case Spys_ru_decode page charEqNum0 of
        (Inl e, charEqNum) \<Rightarrow> (Inl e, charEqNum)
      | (Inr page', charEqNum) \<Rightarrow> (Inr (pattern_findall page'), charEqNum))"

section \<open>Discovery\<close>

subsection \<open>\<^verbatim>\<open>Proxylist_me\<close>\<close>

text \<open>\<^verbatim>\<open>exp = r'''href\s*=\s*['"][^'"]*/?page=(\d+)['"]'''\<close>\<close>

definition Proxylist_me_exp :: re where
  "Proxylist_me_exp =
     Seq [Lits ''href'', Star (Cls is_space), Lit CHR ''='', Star (Cls is_space),
          Cls is_quote, Star (Cls (\<lambda>c. \<not> is_quote c)), Opt (Lit CHR ''/''),
          Lits ''page='', Grp 1 (Plus (Cls is_digit)), Cls is_quote]"

text \<open>
  \<^verbatim>\<open>
  async def _pipe(self):
      page = await self.get('https://proxylist.me/')
      if not page:
          return
      lastId = max([int(n) for n in re.findall(exp, page)])
      urls = ['https://proxylist.me/?page=%d' % n for n in range(lastId)]
      await self._find_on_pages(urls)
  \<close>
\<close>

definition last_page :: "re \<Rightarrow> string \<Rightarrow> exn + int" where
  "last_page exp page =
     (case traverse py_int (findall1 exp page) of
        Inl e \<Rightarrow> Inl e
      | Inr ns \<Rightarrow> py_max ns)"

definition Proxylist_me__pipe ::
  "'c strategy \<Rightarrow> 'w net \<Rightarrow> ('c, 'w) state \<Rightarrow> (exn + unit) \<times> ('c, 'w) state" where
  "Proxylist_me__pipe find_proxies net st =
     (case Provider_get net (GET ''https://proxylist.me/'') st of
        (Inl e, st1) \<Rightarrow> (Inl e, st1)
      | (Inr page, st1) \<Rightarrow>
          if page = [] then (Inr (), st1)
          else
            (case last_page Proxylist_me_exp page of
               Inl e \<Rightarrow> (Inl e, st1)
             | Inr lastId \<Rightarrow>
                 Provider__find_on_pages find_proxies net
                   (map (\<lambda>n. Url (''https://proxylist.me/?page='' @ str_int (int n)))
                      [0..<nat lastId])
                   st1))"

subsection \<open>\<^verbatim>\<open>Gatherproxy_com\<close>\<close>

text \<open>\<^verbatim>\<open>expNumPages = r'href="#(\d+)"'\<close>\<close>

definition Gatherproxy_com_expNumPages :: re where
  \<open>Gatherproxy_com_expNumPages =
     Seq [Lits ''href="#'', Grp 1 (Plus (Cls is_digit)), Lit CHR 0x22]\<close>

text \<open>
  The keyword dictionary
  \<^verbatim>\<open>{'url': url, 'data': {'Type': t, 'PageIdx': pid}, 'method': method}\<close>.
\<close>

definition Gatherproxy_com_request :: "string \<Rightarrow> int \<Rightarrow> request" where
  "Gatherproxy_com_request t pid =
     \<lparr>req_url = ''http://www.gatherproxy.com/proxylist/anonymity/'',
      req_data = Some [(''Type'', PStr t), (''PageIdx'', PInt pid)],
      req_headers = None,
      req_method = ''POST''\<rparr>"

text \<open>
  The loop of \<^verbatim>\<open>Gatherproxy_com._pipe\<close> over the tiers, with the value of \<^verbatim>\<open>urls\<close> it
  has reached:
  \<^verbatim>\<open>
  urls = []
  for t in ['anonymous', 'elite']:
      data = {'Type': t, 'PageIdx': 1}
      page = await self.get(url, data=data, method=method)
      if not page:
          continue
      lastPageId = max([int(n) for n in re.findall(expNumPages, page)])
      urls = [{'url': url, 'data': {'Type': t, 'PageIdx': pid}, 'method': method}
              for pid in range(1, lastPageId + 1)]
  await self._find_on_pages(urls)
  \<close>
\<close>

fun Gatherproxy_com_urls ::
  "'w net \<Rightarrow> string list \<Rightarrow> target list \<Rightarrow> ('c, 'w) state \<Rightarrow>
     (exn + target list) \<times> ('c, 'w) state" where
  "Gatherproxy_com_urls net [] urls st = (Inr urls, st)"
| "Gatherproxy_com_urls net (t # ts) urls st =
     (case Provider_get net (Gatherproxy_com_request t 1) st of
        (Inl e, st1) \<Rightarrow> (Inl e, st1)
      | (Inr page, st1) \<Rightarrow>
          if page = [] then Gatherproxy_com_urls net ts urls st1
          else
            (case last_page Gatherproxy_com_expNumPages page of
               Inl e \<Rightarrow> (Inl e, st1)
             | Inr lastPageId \<Rightarrow>
                 Gatherproxy_com_urls net ts
                   (map (\<lambda>pid. Kwargs (Gatherproxy_com_request t pid)) [1..lastPageId])
                   st1))"

definition Gatherproxy_com__pipe ::
  "'c strategy \<Rightarrow> 'w net \<Rightarrow> ('c, 'w) state \<Rightarrow> (exn + unit) \<times> ('c, 'w) state" where
  "Gatherproxy_com__pipe find_proxies net st =
     (case Gatherproxy_com_urls net [''anonymous'', ''elite''] [] st of
        (Inl e, st1) \<Rightarrow> (Inl e, st1)
      | (Inr urls, st1) \<Rightarrow> Provider__find_on_pages find_proxies net urls st1)"

section \<open>Counting the calls of a fetch step\<close>

text \<open>
  To say how often \<^verbatim>\<open>get\<close> calls the fetch step and what each call returned, the step
  is run beside a counter: \<open>counted f\<close> is \<open>f\<close> with one more call counted,
  \<open>state_after f i s\<close> is the state \<open>i\<close> calls of \<open>f\<close> after \<open>s\<close>, and
  \<open>attempt f i s\<close> is what the call after those \<open>i\<close> returns (so \<open>attempt f 0 s\<close> is the
  first attempt).
\<close>

definition counted :: "('s \<Rightarrow> 'r \<times> 's) \<Rightarrow> 's \<times> nat \<Rightarrow> 'r \<times> ('s \<times> nat)" where
  "counted f sn = (case sn of (s, n) \<Rightarrow> (case f s of (r, s') \<Rightarrow> (r, (s', Suc n))))"

fun state_after :: "('s \<Rightarrow> 'r \<times> 's) \<Rightarrow> nat \<Rightarrow> 's \<Rightarrow> 's" where
  "state_after f 0 s = s"
| "state_after f (Suc i) s = state_after f i (snd (f s))"

definition attempt :: "('s \<Rightarrow> 'r \<times> 's) \<Rightarrow> nat \<Rightarrow> 's \<Rightarrow> 'r" where
  "attempt f i s = fst (f (state_after f i s))"

section \<open>The result set\<close>

subsection \<open>What a merge does\<close>

lemma traverse_unpack2_set:
  "traverse unpack2 new = Inr pairs \<Longrightarrow> (h, po) \<in> set pairs \<longleftrightarrow> [h, po] \<in> set new"
proof (induction new arbitrary: pairs)
  case Nil then show ?case by simp
next
  case (Cons it new)
  then show ?case
    by (cases it rule: unpack2.cases) (auto split: sum.splits)
qed

lemma traverse_unpack2_Inl:
  "traverse unpack2 new = Inl e \<Longrightarrow> e = ValueError"
proof (induction new)
  case Nil then show ?case by simp
next
  case (Cons it new)
  then show ?case
    by (cases it rule: unpack2.cases) (auto split: sum.splits)
qed

lemma proxies_setter_Inr:
  assumes "proxies_setter p new = Inr p'"
  shows "proxies p' =
           proxies p \<union> {(h, po, proto p) | h po. [h, po] \<in> set new \<and> po \<noteq> []}"
    and "proto p' = proto p"
  using assms traverse_unpack2_set
  by (fastforce simp: proxies_setter_def split: sum.splits)+

lemma merges_Inr:
  "merges p batches = Inr p' \<Longrightarrow>
     proto p' = proto p \<and>
     proxies p' = proxies p \<union>
       {(h, po, proto p) | h po. (\<exists>new \<in> set batches. [h, po] \<in> set new) \<and> po \<noteq> []}"
proof (induction batches arbitrary: p)
  case Nil then show ?case by simp
next
  case (Cons new rest)
  from Cons.prems obtain s1 where s1: "proxies_setter p new = Inr s1" and r: "merges s1 rest = Inr p'"
    by (auto split: sum.splits)
  from Cons.IH[OF r] proxies_setter_Inr[OF s1] show ?case by auto
qed

lemma merges_init:
  assumes "merges (Provider_init d u pr mc mt tmo) batches = Inr p'"
  shows "proto p' = pr"
    and "proxies p' =
       {(h, po, pr) | h po. (\<exists>new \<in> set batches. [h, po] \<in> set new) \<and> po \<noteq> []}"
  using merges_Inr[OF assms] by (simp_all add: Provider_init_def)

subsection \<open>Deduplication\<close>

text \<open>
  Claim C1. In a run that starts from the empty result set, every (host, port) pair that
  some merged extraction result holds with a non-empty port is in the final set exactly
  once, and no other pair is there at all, however often and in however many results it
  came; merging a pair that was already merged changes nothing. Merging the same result
  twice is the same as merging it once, and two results can be merged in either order,
  also where an item that does not unpack makes the merge raise.
\<close>

theorem merge_dedup:
  "(merges (Provider_init d u pr mc mt tmo) batches = Inr p' \<longrightarrow>
      card {r \<in> proxies p'. fst r = h \<and> fst (snd r) = po} =
        (if po \<noteq> [] \<and> (\<exists>new \<in> set batches. [h, po] \<in> set new) then 1 else 0) \<and>
      ((\<exists>new \<in> set batches. [h, po] \<in> set new) \<longrightarrow>
         proxies_setter p' [[h, po]] = Inr p')) \<and>
   then_merge (proxies_setter p new) new = proxies_setter p new \<and>
   then_merge (proxies_setter p a) b = then_merge (proxies_setter p b) a"
proof (intro conjI impI)
  assume m: "merges (Provider_init d u pr mc mt tmo) batches = Inr p'"
  note i = merges_init[OF m]
  have "{r \<in> proxies p'. fst r = h \<and> fst (snd r) = po} =
          (if po \<noteq> [] \<and> (\<exists>new \<in> set batches. [h, po] \<in> set new) then {(h, po, pr)} else {})"
    unfolding i(2) by auto
  then show "card {r \<in> proxies p'. fst r = h \<and> fst (snd r) = po} =
        (if po \<noteq> [] \<and> (\<exists>new \<in> set batches. [h, po] \<in> set new) then 1 else 0)"
    by simp
  assume "\<exists>new \<in> set batches. [h, po] \<in> set new"
  then have "po \<noteq> [] \<Longrightarrow> (h, po, pr) \<in> proxies p'"
    unfolding i(2) by auto
  then show "proxies_setter p' [[h, po]] = Inr p'"
    using i(1) by (auto simp: proxies_setter_def insert_absorb)
next
  show "then_merge (proxies_setter p new) new = proxies_setter p new"
    by (auto simp: then_merge_def proxies_setter_def split: sum.splits)
next
  show "then_merge (proxies_setter p a) b = then_merge (proxies_setter p b) a"
    by (cases "traverse unpack2 a"; cases "traverse unpack2 b")
       (auto simp: then_merge_def proxies_setter_def Un_ac dest: traverse_unpack2_Inl)
qed

theorem merge_dedup_witness:
  "merges (Provider_init ''example.org'' None (Tuple [''HTTP'', ''HTTPS'']) 4 3 20)
     [[[''1.1.1.1'', ''80''], [''2.2.2.2'', '''']],
      [[''3.3.3.3'', ''8080''], [''1.1.1.1'', ''80'']]] =
     Inr \<lparr>domain = ''example.org'', url = None, proto = Tuple [''HTTP'', ''HTTPS''],
          max_tries = 3, timeout = 20, max_conn = 4,
          proxies = {(''1.1.1.1'', ''80'', Tuple [''HTTP'', ''HTTPS'']),
                     (''3.3.3.3'', ''8080'', Tuple [''HTTP'', ''HTTPS''])}\<rparr> \<and>
   card {r \<in> {(''1.1.1.1'', ''80'', Tuple [''HTTP'', ''HTTPS'']),
               (''3.3.3.3'', ''8080'', Tuple [''HTTP'', ''HTTPS''])}.
           fst r = ''1.1.1.1'' \<and> fst (snd r) = ''80''} = 1 \<and>
   proxies_setter
     \<lparr>domain = ''example.org'', url = None, proto = Tuple [''HTTP'', ''HTTPS''],
      max_tries = 3, timeout = 20, max_conn = 4,
      proxies = {(''1.1.1.1'', ''80'', Tuple [''HTTP'', ''HTTPS'']),
                 (''3.3.3.3'', ''8080'', Tuple [''HTTP'', ''HTTPS''])}\<rparr>
     [[''1.1.1.1'', ''80'']] =
     Inr \<lparr>domain = ''example.org'', url = None, proto = Tuple [''HTTP'', ''HTTPS''],
          max_tries = 3, timeout = 20, max_conn = 4,
          proxies = {(''1.1.1.1'', ''80'', Tuple [''HTTP'', ''HTTPS'']),
                     (''3.3.3.3'', ''8080'', Tuple [''HTTP'', ''HTTPS''])}\<rparr>"
proof -
  let ?pr = "Tuple [''HTTP'', ''HTTPS'']"
  let ?bs = "[[[''1.1.1.1'', ''80''], [''2.2.2.2'', '''']],
      [[''3.3.3.3'', ''8080''], [''1.1.1.1'', ''80'']]]"
  let ?p' = "\<lparr>domain = ''example.org'', url = None, proto = ?pr,
          max_tries = 3, timeout = 20, max_conn = 4,
          proxies = {(''1.1.1.1'', ''80'', ?pr), (''3.3.3.3'', ''8080'', ?pr)}\<rparr>"
  have m: "merges (Provider_init ''example.org'' None ?pr 4 3 20) ?bs = Inr ?p'"
    by (auto simp: Provider_init_def proxies_setter_def)
  have ex: "\<exists>new \<in> set ?bs. [''1.1.1.1'', ''80''] \<in> set new"
    by simp
  from merge_dedup[where d = "''example.org''" and u = None and pr = ?pr and mc = 4 and mt = 3
      and tmo = 20 and batches = ?bs and p' = ?p' and h = "''1.1.1.1''" and po = "''80''"]
    m ex
  show ?thesis by simp
qed

subsection \<open>A run is a sequence of merges\<close>

lemma get_loop_keeps:
  assumes "\<And>s. g (snd (f s)) = g s"
  shows "g (snd (get_loop f n pg s)) = g s"
proof (induction n arbitrary: pg s)
  case 0
  then show ?case by (simp split: option.splits)
next
  case (Suc n)
  obtain r s' where fs: "f s = (r, s')" by (cases "f s")
  with assms[of s] have g: "g s' = g s" by simp
  show ?case
  proof (cases r)
    case (Inl e)
    with fs g show ?thesis by simp
  next
    case (Inr page)
    with fs g Suc.IH show ?thesis by auto
  qed
qed

lemma Provider__get_self:
  "self (snd (Provider__get net req st)) = self st"
  by (auto simp: Provider__get_def get_except_def log_debug_def Let_def
      split: prod.splits outcome.splits sum.splits)

lemma Provider__get_ext:
  "ext (snd (Provider__get net req st)) = ext st"
  by (auto simp: Provider__get_def get_except_def log_debug_def Let_def
      split: prod.splits outcome.splits sum.splits)

lemma Provider_get_self:
  "self (snd (Provider_get net req st)) = self st"
  unfolding Provider_get_def get_def
  by (rule get_loop_keeps) (rule Provider__get_self)

lemma Provider_get_ext:
  "ext (snd (Provider_get net req st)) = ext st"
  unfolding Provider_get_def get_def
  by (rule get_loop_keeps) (rule Provider__get_ext)

lemma find_on_page_self:
  "self (snd (Provider__find_on_page find_proxies net req st)) = self st \<or>
   (\<exists>received.
      proxies_setter (self st) received =
        Inr (self (snd (Provider__find_on_page find_proxies net req st))))"
proof -
  obtain r st1 where g: "Provider_get net req st = (r, st1)"
    by (cases "Provider_get net req st")
  with Provider_get_self[of net req st] have s1: "self st1 = self st" by simp
  show ?thesis
    using g s1
    by (auto simp: Provider__find_on_page_def try_find_proxies_def log_error_def log_debug_def
        Let_def split: sum.splits prod.splits)
qed

lemma run_tasks_merges:
  "\<exists>batches. merges (self st) batches = Inr (self (snd (run_tasks find_proxies net ts st)))"
proof (induction ts arbitrary: st)
  case Nil
  have "merges (self st) [] = Inr (self (snd (run_tasks find_proxies net [] st)))" by simp
  then show ?case by blast
next
  case (Cons t ts)
  obtain r st' where f: "Provider__find_on_page find_proxies net (target_request t) st = (r, st')"
    by (cases "Provider__find_on_page find_proxies net (target_request t) st")
  from find_on_page_self[of find_proxies net "target_request t" st] f
  have step: "\<exists>bs. merges (self st) bs = Inr (self st')"
  proof (elim disjE exE)
    assume "self (snd (Provider__find_on_page find_proxies net (target_request t) st)) = self st"
    with f have "merges (self st) [] = Inr (self st')" by simp
    then show ?thesis by blast
  next
    fix received
    assume "proxies_setter (self st) received =
        Inr (self (snd (Provider__find_on_page find_proxies net (target_request t) st)))"
    with f have "merges (self st) [received] = Inr (self st')" by simp
    then show ?thesis by blast
  qed
  show ?case
  proof (cases r)
    case (Inl e)
    with f step show ?thesis by simp
  next
    case (Inr u)
    from Cons.IH[of st'] obtain bs2 where
      b2: "merges (self st') bs2 = Inr (self (snd (run_tasks find_proxies net ts st')))" by blast
    from step obtain bs1 where b1: "merges (self st) bs1 = Inr (self st')" by blast
    have app: "\<And>p q. merges p bs1 = Inr q \<Longrightarrow> merges p (bs1 @ bs2) = merges q bs2"
      by (induction bs1) (auto split: sum.splits)
    from app[OF b1] b2 f Inr show ?thesis by auto
  qed
qed

lemma find_on_pages_merges:
  "\<exists>batches.
     merges (self st) batches = Inr (self (snd (Provider__find_on_pages find_proxies net urls st)))"
proof -
  have nil: "merges (self st) [] = Inr (self st)" by simp
  show ?thesis
    unfolding Provider__find_on_pages_def
    using nil run_tasks_merges[of st find_proxies net]
    by (auto split: sum.splits simp del: merges.simps)
qed

subsection \<open>Protocol tagging\<close>

text \<open>
  Claim C2. Every record of the result set carries the protocol set the provider was
  constructed with, and the provider's \<^verbatim>\<open>proto\<close> itself stays what it was: after any
  sequence of merges from the empty set, and after any batch of pages has gone through
  \<^verbatim>\<open>_find_on_pages\<close>, whatever the extraction strategy returns and whatever the network
  answers.
\<close>

theorem protocol_tagging:
  "(merges (Provider_init d u pr mc mt tmo) batches = Inr p' \<longrightarrow>
      proto p' = pr \<and> (\<forall>r \<in> proxies p'. snd (snd r) = pr)) \<and>
   (self st = Provider_init d u pr mc mt tmo \<longrightarrow>
      proto (self (snd (Provider__find_on_pages find_proxies net urls st))) = pr \<and>
      (\<forall>r \<in> proxies (self (snd (Provider__find_on_pages find_proxies net urls st))).
         snd (snd r) = pr))"
proof (intro conjI impI)
  assume m: "merges (Provider_init d u pr mc mt tmo) batches = Inr p'"
  from merges_init[OF m] show "proto p' = pr" and "\<forall>r \<in> proxies p'. snd (snd r) = pr"
    by auto
next
  assume s: "self st = Provider_init d u pr mc mt tmo"
  let ?q = "self (snd (Provider__find_on_pages find_proxies net urls st))"
  from find_on_pages_merges[of st find_proxies net urls] s
  obtain bs where m: "merges (Provider_init d u pr mc mt tmo) bs = Inr ?q" by auto
  from merges_init[OF m] show "proto ?q = pr" and "\<forall>r \<in> proxies ?q. snd (snd r) = pr"
    by auto
qed

theorem protocol_tagging_witness:
  "merges (Provider_init ''example.org'' None (Str ''SOCKS4'') 4 3 20)
     [[[''1.1.1.1'', ''1080'']], [[''2.2.2.2'', ''HTTP'']]] =
     Inr \<lparr>domain = ''example.org'', url = None, proto = Str ''SOCKS4'',
          max_tries = 3, timeout = 20, max_conn = 4,
          proxies = {(''1.1.1.1'', ''1080'', Str ''SOCKS4''),
                     (''2.2.2.2'', ''HTTP'', Str ''SOCKS4'')}\<rparr> \<and>
   self \<lparr>self = Provider_init ''example.org'' None (Str ''SOCKS4'') 4 3 20,
         ext = (), logs = [], world = ()\<rparr> =
     Provider_init ''example.org'' None (Str ''SOCKS4'') 4 3 20 \<and>
   proxies (self (snd (Provider__find_on_pages
       (\<lambda>page c. (Inr [[''1.1.1.1'', page]], c))
       (\<lambda>tmo req w. (Responded 200 (Inr ''1080''), w))
       [Url ''http://example.org/'']
       \<lparr>self = Provider_init ''example.org'' None (Str ''SOCKS4'') 4 3 20,
        ext = (), logs = [], world = ()\<rparr>))) =
     {(''1.1.1.1'', ''1080'', Str ''SOCKS4'')}"
proof -
  let ?pr = "Str ''SOCKS4''"
  let ?bs = "[[[''1.1.1.1'', ''1080'']], [[''2.2.2.2'', ''HTTP'']]]"
  let ?p' = "\<lparr>domain = ''example.org'', url = None, proto = ?pr,
          max_tries = 3, timeout = 20, max_conn = 4,
          proxies = {(''1.1.1.1'', ''1080'', ?pr), (''2.2.2.2'', ''HTTP'', ?pr)}\<rparr>"
  let ?st = "\<lparr>self = Provider_init ''example.org'' None ?pr 4 3 20,
        ext = (), logs = [], world = ()\<rparr>"
  let ?fp = "\<lambda>page (c::unit). (Inr [[''1.1.1.1'', page]] :: exn + item list, c)"
  let ?net = "\<lambda>(tmo::int) (req::request) (w::unit). (Responded 200 (Inr ''1080''), w)"
  have m: "merges (Provider_init ''example.org'' None ?pr 4 3 20) ?bs = Inr ?p'"
    by (auto simp: Provider_init_def proxies_setter_def)
  have s: "self ?st = Provider_init ''example.org'' None ?pr 4 3 20"
    by simp
  have r: "proxies (self (snd (Provider__find_on_pages ?fp ?net [Url ''http://example.org/''] ?st))) =
     {(''1.1.1.1'', ''1080'', ?pr)}"
    by (simp add: Provider__find_on_pages_def py_set_def Provider__find_on_page_def
        Provider_get_def get_def Provider__get_def try_find_proxies_def proxies_setter_def
        Provider_init_def GET_def log_debug_def log_error_def eval_nat_numeral)
  from protocol_tagging[where d = "''example.org''" and u = None and pr = ?pr and mc = 4
      and mt = 3 and tmo = 20 and batches = ?bs and p' = ?p' and st = ?st
      and find_proxies = ?fp and net = ?net and urls = "[Url ''http://example.org/'']"]
    m s r
  show ?thesis by simp
qed

subsection \<open>Empty ports\<close>

lemma traverse_append:
  "traverse f (xs @ ys) =
     (case traverse f xs of
        Inl e \<Rightarrow> Inl e
      | Inr a \<Rightarrow> (case traverse f ys of Inl e \<Rightarrow> Inl e | Inr b \<Rightarrow> Inr (a @ b)))"
  by (induction xs) (auto split: sum.splits)

text \<open>
  Claim C10. A pair whose port is the empty string is dropped by the setter without any
  other effect: the merge of a result is the merge of the result without that pair. So no
  record with an empty port is in the set, after any sequence of merges from the empty set
  and after any batch of pages has gone through \<^verbatim>\<open>_find_on_pages\<close>, also when the
  extraction strategy yields such pairs.
\<close>

theorem empty_port_dropped:
  "(merges (Provider_init d u pr mc mt tmo) batches = Inr p' \<longrightarrow>
      (\<forall>r \<in> proxies p'. fst (snd r) \<noteq> [])) \<and>
   (self st = Provider_init d u pr mc mt tmo \<longrightarrow>
      (\<forall>r \<in> proxies (self (snd (Provider__find_on_pages find_proxies net urls st))).
         fst (snd r) \<noteq> [])) \<and>
   proxies_setter p (new1 @ [host, []] # new2) = proxies_setter p (new1 @ new2)"
proof (intro conjI impI)
  assume m: "merges (Provider_init d u pr mc mt tmo) batches = Inr p'"
  from merges_init(2)[OF m] show "\<forall>r \<in> proxies p'. fst (snd r) \<noteq> []"
    by auto
next
  assume s: "self st = Provider_init d u pr mc mt tmo"
  let ?q = "self (snd (Provider__find_on_pages find_proxies net urls st))"
  from find_on_pages_merges[of st find_proxies net urls] s
  obtain bs where m: "merges (Provider_init d u pr mc mt tmo) bs = Inr ?q" by auto
  from merges_init(2)[OF m] show "\<forall>r \<in> proxies ?q. fst (snd r) \<noteq> []"
    by auto
next
  have keep: "filter (\<lambda>(h, po). po \<noteq> []) (a @ (host, []) # b) =
      filter (\<lambda>(h, po). po \<noteq> []) (a @ b)" for a b :: "(string \<times> string) list"
    by simp
  show "proxies_setter p (new1 @ [host, []] # new2) = proxies_setter p (new1 @ new2)"
    unfolding proxies_setter_def traverse_append
    by (cases "traverse unpack2 new1"; cases "traverse unpack2 new2")
      (simp_all only: traverse.simps unpack2.simps sum.case keep)
qed

theorem empty_port_dropped_witness:
  "merges (Provider_init ''example.org'' None (Tuple [''HTTP'']) 4 3 20)
     [[[''1.1.1.1'', ''''], [''2.2.2.2'', ''80'']], [[''3.3.3.3'', '''']]] =
     Inr \<lparr>domain = ''example.org'', url = None, proto = Tuple [''HTTP''],
          max_tries = 3, timeout = 20, max_conn = 4,
          proxies = {(''2.2.2.2'', ''80'', Tuple [''HTTP''])}\<rparr> \<and>
   self \<lparr>self = Provider_init ''example.org'' None (Tuple [''HTTP'']) 4 3 20,
         ext = (), logs = [], world = ()\<rparr> =
     Provider_init ''example.org'' None (Tuple [''HTTP'']) 4 3 20 \<and>
   proxies (self (snd (Provider__find_on_pages
       (\<lambda>page c. (Inr [[''1.1.1.1'', ''''], [''2.2.2.2'', page]], c))
       (\<lambda>tmo req w. (Responded 200 (Inr ''80''), w))
       [Url ''http://example.org/'']
       \<lparr>self = Provider_init ''example.org'' None (Tuple [''HTTP'']) 4 3 20,
        ext = (), logs = [], world = ()\<rparr>))) =
     {(''2.2.2.2'', ''80'', Tuple [''HTTP''])}"
proof -
  let ?pr = "Tuple [''HTTP'']"
  let ?bs = "[[[''1.1.1.1'', ''''], [''2.2.2.2'', ''80'']], [[''3.3.3.3'', '''']]]"
  let ?p' = "\<lparr>domain = ''example.org'', url = None, proto = ?pr,
          max_tries = 3, timeout = 20, max_conn = 4,
          proxies = {(''2.2.2.2'', ''80'', ?pr)}\<rparr>"
  let ?st = "\<lparr>self = Provider_init ''example.org'' None ?pr 4 3 20,
        ext = (), logs = [], world = ()\<rparr>"
  let ?fp = "\<lambda>page (c::unit).
     (Inr [[''1.1.1.1'', ''''], [''2.2.2.2'', page]] :: exn + item list, c)"
  let ?net = "\<lambda>(tmo::int) (req::request) (w::unit). (Responded 200 (Inr ''80''), w)"
  have m: "merges (Provider_init ''example.org'' None ?pr 4 3 20) ?bs = Inr ?p'"
    by (auto simp: Provider_init_def proxies_setter_def)
  have s: "self ?st = Provider_init ''example.org'' None ?pr 4 3 20"
    by simp
  have r: "proxies (self (snd (Provider__find_on_pages ?fp ?net [Url ''http://example.org/''] ?st))) =
     {(''2.2.2.2'', ''80'', ?pr)}"
    by (simp add: Provider__find_on_pages_def py_set_def Provider__find_on_page_def
        Provider_get_def get_def Provider__get_def try_find_proxies_def proxies_setter_def
        Provider_init_def GET_def log_debug_def log_error_def eval_nat_numeral)
  from empty_port_dropped[where d = "''example.org''" and u = None and pr = ?pr and mc = 4
      and mt = 3 and tmo = 20 and batches = ?bs and p' = ?p' and st = ?st
      and find_proxies = ?fp and net = ?net and urls = "[Url ''http://example.org/'']"]
    m s r
  show ?thesis by simp
qed

section \<open>Retrying\<close>

lemma attempt_Suc: "attempt f (Suc i) s = attempt f i (snd (f s))"
  by (simp add: attempt_def)

lemma get_loop_counted_success:
  "k < n \<Longrightarrow> \<forall>i<k. attempt f i s = Inr [] \<Longrightarrow> attempt f k s = Inr page \<Longrightarrow> page \<noteq> [] \<Longrightarrow>
     get_loop (counted f) n pg (s, c) = (Inr page, (state_after f (Suc k) s, c + Suc k))"
proof (induction k arbitrary: n s c pg)
  case 0
  then obtain n' where n: "n = Suc n'" by (cases n) auto
  from 0 have "fst (f s) = Inr page" by (simp add: attempt_def)
  with 0 n show ?case
    by (cases "f s") (simp add: counted_def)
next
  case (Suc k)
  then obtain n' where n: "n = Suc n'" and k: "k < n'" by (cases n) auto
  from Suc.prems(2) have first: "fst (f s) = Inr []" by (auto simp: attempt_def)
  from Suc.prems(2) have rest: "\<forall>i<k. attempt f i (snd (f s)) = Inr []"
    by (auto simp: attempt_Suc[symmetric])
  from Suc.prems(3) have last: "attempt f k (snd (f s)) = Inr page"
    by (simp add: attempt_Suc)
  from Suc.IH[OF k rest last Suc.prems(4), of "Some []" "Suc c"] first n
  show ?case
    by (cases "f s") (simp add: counted_def)
qed

lemma get_loop_counted_empty:
  "\<forall>i<n. attempt f i s = Inr [] \<Longrightarrow>
     get_loop (counted f) n (Some []) (s, c) = (Inr [], (state_after f n s, c + n))"
proof (induction n arbitrary: s c)
  case 0
  then show ?case by simp
next
  case (Suc n)
  from Suc.prems have first: "fst (f s) = Inr []" by (auto simp: attempt_def)
  from Suc.prems have rest: "\<forall>i<n. attempt f i (snd (f s)) = Inr []"
    by (auto simp: attempt_Suc[symmetric])
  from Suc.IH[OF rest, of "Suc c"] first show ?case
    by (cases "f s") (simp add: counted_def)
qed

text \<open>
  Claim C3. With a budget of at least one attempt: when the first \<open>k\<close> attempts return
  empty text and the next one, still within the budget, returns a non-empty page, \<^verbatim>\<open>get\<close>
  returns that page and has called the fetch step exactly \<open>k + 1\<close> times; when every
  attempt of the budget returns empty text, \<^verbatim>\<open>get\<close> returns empty text and has called the
  fetch step exactly as often as the budget says. \<^verbatim>\<open>Provider.get\<close> is \<open>get\<close> with the
  provider's \<^verbatim>\<open>_max_tries\<close> and \<^verbatim>\<open>_get\<close> as the fetch step.
\<close>

theorem retry_bound:
  "1 \<le> tries \<longrightarrow>
     ((k < nat tries \<and> (\<forall>i<k. attempt f i s = Inr []) \<and>
       attempt f k s = Inr page \<and> page \<noteq> []) \<longrightarrow>
        get tries (counted f) (s, 0) = (Inr page, (state_after f (Suc k) s, Suc k))) \<and>
     ((\<forall>i < nat tries. attempt f i s = Inr []) \<longrightarrow>
        get tries (counted f) (s, 0) = (Inr [], (state_after f (nat tries) s, nat tries)))"
proof (intro impI conjI)
  assume "k < nat tries \<and> (\<forall>i<k. attempt f i s = Inr []) \<and>
       attempt f k s = Inr page \<and> page \<noteq> []"
  then show "get tries (counted f) (s, 0) = (Inr page, (state_after f (Suc k) s, Suc k))"
    using get_loop_counted_success[of k "nat tries" f s page None 0]
    by (simp add: get_def)
next
  assume t: "1 \<le> tries" and e: "\<forall>i < nat tries. attempt f i s = Inr []"
  from t obtain n where n: "nat tries = Suc n" by (cases "nat tries") auto
  from e n have first: "fst (f s) = Inr []" by (auto simp: attempt_def)
  from e n have rest: "\<forall>i<n. attempt f i (snd (f s)) = Inr []"
    by (auto simp: attempt_Suc[symmetric])
  from get_loop_counted_empty[OF rest, of "Suc 0"] first n
  show "get tries (counted f) (s, 0) = (Inr [], (state_after f (nat tries) s, nat tries))"
    by (cases "f s") (simp add: get_def counted_def)
qed

text \<open>
  A fetch step that fails twice and then succeeds, with three attempts allowed: three
  calls. A fetch step that always fails: three calls and empty text.
\<close>

theorem retry_bound_witness:
  "get 3 (counted (\<lambda>n::nat. (if n < 2 then Inr [] else Inr ''page'', Suc n))) (0, 0) =
     (Inr ''page'', (3, 3)) \<and>
   get 3 (counted (\<lambda>n::nat. (Inr [], Suc n))) (0, 0) = (Inr [], (3, 3))"
proof -
  let ?f = "\<lambda>n::nat. (if n < 2 then Inr [] else Inr ''page'' :: exn + string, Suc n)"
  let ?g = "\<lambda>n::nat. (Inr [] :: exn + string, Suc n)"
  have a: "(1::int) \<le> 3" by simp
  have b: "(2::nat) < nat 3 \<and> (\<forall>i<2. attempt ?f i 0 = Inr []) \<and>
       attempt ?f 2 0 = Inr ''page'' \<and> ''page'' \<noteq> []"
    by (simp add: attempt_def eval_nat_numeral less_Suc_eq)
  have c: "\<forall>i < nat 3. attempt ?g i 0 = Inr []"
    by (simp add: attempt_def eval_nat_numeral less_Suc_eq)
  have s1: "state_after ?f (Suc 2) 0 = 3" "state_after ?g (nat 3) 0 = 3"
    by (simp_all add: eval_nat_numeral)
  from retry_bound[of 3 2 ?f 0 "''page''"] a b
  have 1: "get 3 (counted ?f) (0, 0) = (Inr ''page'', (3, 3))"
    using s1 by simp
  from retry_bound[of 3 0 ?g 0 "[]"] a c
  have 2: "get 3 (counted ?g) (0, 0) = (Inr [], (3, 3))"
    using s1 by simp
  from 1 2 show ?thesis by simp
qed

section \<open>Failures of a single fetch\<close>

text \<open>
  Claim C4. A request that is answered with a status other than 200, and a request or a
  reading of the body that raises a timeout, \<^verbatim>\<open>ClientOSError\<close> (connection reset and other
  errors of the operating system), \<^verbatim>\<open>ServerDisconnectedError\<close> or \<^verbatim>\<open>UnicodeDecodeError\<close>,
  make \<^verbatim>\<open>_get\<close> return the empty text. Nothing is raised, the log gains debug lines only
  (the line that names the url and the error, after the line with the page for a bad
  status), and nothing else of the state changes but the world behind the network.
\<close>

theorem fetch_failures_absorbed:
  "net (timeout (self st)) req (world st) = (out, w) \<longrightarrow>
     ((out = Responded status (Inr page) \<and> status \<noteq> 200) \<longrightarrow>
        Provider__get net req st =
          (Inr [],
           st\<lparr>logs := logs st @
                  [(DEBUG, Bad_status (req_url req) status page),
                   (DEBUG, Request_failed (req_url req) BadStatusError)],
              world := w\<rparr>)) \<and>
     ((e \<in> {TimeoutError, ClientOSError, ServerDisconnectedError, UnicodeDecodeError} \<and>
       (out = Raised e \<or> out = Responded status (Inl e))) \<longrightarrow>
        Provider__get net req st =
          (Inr [], st\<lparr>logs := logs st @ [(DEBUG, Request_failed (req_url req) e)], world := w\<rparr>))"
  by (auto simp: Provider__get_def get_except_def log_debug_def)

theorem fetch_failures_absorbed_witness:
  "Provider__get (\<lambda>tmo req w. (Responded 404 (Inr ''Not Found''), Suc w))
     (GET ''http://example.org/'')
     \<lparr>self = Provider_init ''example.org'' None (Tuple []) 4 3 20,
      ext = (), logs = [], world = 0\<rparr> =
     (Inr [],
      \<lparr>self = Provider_init ''example.org'' None (Tuple []) 4 3 20, ext = (),
       logs = [(DEBUG, Bad_status ''http://example.org/'' 404 ''Not Found''),
               (DEBUG, Request_failed ''http://example.org/'' BadStatusError)],
       world = Suc 0\<rparr>) \<and>
   Provider__get (\<lambda>tmo req w. (Raised TimeoutError, Suc w))
     (GET ''http://example.org/'')
     \<lparr>self = Provider_init ''example.org'' None (Tuple []) 4 3 20,
      ext = (), logs = [], world = 0\<rparr> =
     (Inr [],
      \<lparr>self = Provider_init ''example.org'' None (Tuple []) 4 3 20, ext = (),
       logs = [(DEBUG, Request_failed ''http://example.org/'' TimeoutError)],
       world = Suc 0\<rparr>) \<and>
   Provider__get (\<lambda>tmo req w. (Responded 200 (Inl UnicodeDecodeError), Suc w))
     (GET ''http://example.org/'')
     \<lparr>self = Provider_init ''example.org'' None (Tuple []) 4 3 20,
      ext = (), logs = [], world = 0\<rparr> =
     (Inr [],
      \<lparr>self = Provider_init ''example.org'' None (Tuple []) 4 3 20, ext = (),
       logs = [(DEBUG, Request_failed ''http://example.org/'' UnicodeDecodeError)],
       world = Suc 0\<rparr>)"
proof -
  let ?st = "\<lparr>self = Provider_init ''example.org'' None (Tuple []) 4 3 20,
      ext = (), logs = [], world = 0::nat\<rparr>"
  let ?req = "GET ''http://example.org/''"
  let ?n1 = "\<lambda>(tmo::int) (req::request) w. (Responded 404 (Inr ''Not Found''), Suc w)"
  let ?n2 = "\<lambda>(tmo::int) (req::request) w. (Raised TimeoutError, Suc w)"
  let ?n3 = "\<lambda>(tmo::int) (req::request) w. (Responded 200 (Inl UnicodeDecodeError), Suc w)"
  have 1: "?n1 (timeout (self ?st)) ?req (world ?st) =
      (Responded 404 (Inr ''Not Found''), Suc 0)" by simp
  have 2: "?n2 (timeout (self ?st)) ?req (world ?st) = (Raised TimeoutError, Suc 0)" by simp
  have 3: "?n3 (timeout (self ?st)) ?req (world ?st) =
      (Responded 200 (Inl UnicodeDecodeError), Suc 0)" by simp
  from fetch_failures_absorbed[of ?n1 ?st ?req "Responded 404 (Inr ''Not Found'')" "Suc 0"
      404 "''Not Found''"] 1
  have a: "Provider__get ?n1 ?req ?st =
     (Inr [], ?st\<lparr>logs := logs ?st @
                  [(DEBUG, Bad_status (req_url ?req) 404 ''Not Found''),
                   (DEBUG, Request_failed (req_url ?req) BadStatusError)],
              world := Suc 0\<rparr>)"
    by simp
  from fetch_failures_absorbed[of ?n2 ?st ?req "Raised TimeoutError" "Suc 0" _ _ TimeoutError] 2
  have b: "Provider__get ?n2 ?req ?st =
     (Inr [], ?st\<lparr>logs := logs ?st @ [(DEBUG, Request_failed (req_url ?req) TimeoutError)],
              world := Suc 0\<rparr>)"
    by simp
  from fetch_failures_absorbed[of ?n3 ?st ?req "Responded 200 (Inl UnicodeDecodeError)" "Suc 0"
      200 _ UnicodeDecodeError] 3
  have c: "Provider__get ?n3 ?req ?st =
     (Inr [], ?st\<lparr>logs := logs ?st @
                 [(DEBUG, Request_failed (req_url ?req) UnicodeDecodeError)],
              world := Suc 0\<rparr>)"
    by simp
  from a b c show ?thesis by (simp add: GET_def)
qed

section \<open>Failures of the extraction\<close>

text \<open>
  Claim C5. When the page that \<^verbatim>\<open>get\<close> returns is not empty and \<^verbatim>\<open>find_proxies\<close> raises
  on it, \<^verbatim>\<open>_find_on_page\<close> returns normally: the exception is logged as an error together
  with the provider's domain, the page counts as one with no proxies (a second error
  line), and the provider, with its result set, is what it was before the page. In a batch
  the pages after it are processed as if nothing had happened.
\<close>

theorem extraction_failure_contained:
  "(Provider_get net req st = (Inr page, st1) \<and> page \<noteq> [] \<and>
    find_proxies page (ext st1) = (Inl e, c)) \<longrightarrow>
     Provider__find_on_page find_proxies net req st =
       (Inr (),
        st1\<lparr>ext := c,
            logs := logs st1 @
              [(ERROR, Find_proxies_error (domain (self st)) e),
               (ERROR, Got_0_proxies (req_url req))]\<rparr>) \<and>
     self st1 = self st \<and>
     run_tasks find_proxies net (Kwargs req # ts) st =
       run_tasks find_proxies net ts
         (st1\<lparr>ext := c,
             logs := logs st1 @
               [(ERROR, Find_proxies_error (domain (self st)) e),
                (ERROR, Got_0_proxies (req_url req))]\<rparr>)"
proof (intro impI)
  assume a: "Provider_get net req st = (Inr page, st1) \<and> page \<noteq> [] \<and>
    find_proxies page (ext st1) = (Inl e, c)"
  from a Provider_get_self[of net req st] have s: "self st1 = self st" by simp
  from a s have f: "Provider__find_on_page find_proxies net req st =
       (Inr (),
        st1\<lparr>ext := c,
            logs := logs st1 @
              [(ERROR, Find_proxies_error (domain (self st)) e),
               (ERROR, Got_0_proxies (req_url req))]\<rparr>)"
    by (simp add: Provider__find_on_page_def try_find_proxies_def log_error_def)
  from f s show "Provider__find_on_page find_proxies net req st =
       (Inr (),
        st1\<lparr>ext := c,
            logs := logs st1 @
              [(ERROR, Find_proxies_error (domain (self st)) e),
               (ERROR, Got_0_proxies (req_url req))]\<rparr>) \<and>
     self st1 = self st \<and>
     run_tasks find_proxies net (Kwargs req # ts) st =
       run_tasks find_proxies net ts
         (st1\<lparr>ext := c,
             logs := logs st1 @
               [(ERROR, Find_proxies_error (domain (self st)) e),
                (ERROR, Got_0_proxies (req_url req))]\<rparr>)"
    by simp
qed

text \<open>
  A provider that already holds one proxy, a page \<^verbatim>\<open>1.2.3.4:80\<close> and a strategy that
  raises \<^verbatim>\<open>KeyError\<close>.
\<close>

theorem extraction_failure_contained_witness:
  "Provider__find_on_page (\<lambda>page c. (Inl KeyError, c))
     (\<lambda>tmo req w. (Responded 200 (Inr ''1.2.3.4:80''), Suc w))
     (GET ''http://example.org/'')
     \<lparr>self = \<lparr>domain = ''example.org'', url = None, proto = Tuple [''HTTP''],
              max_tries = 3, timeout = 20, max_conn = 4,
              proxies = {(''9.9.9.9'', ''8080'', Tuple [''HTTP''])}\<rparr>,
      ext = (), logs = [], world = 0\<rparr> =
     (Inr (),
      \<lparr>self = \<lparr>domain = ''example.org'', url = None, proto = Tuple [''HTTP''],
               max_tries = 3, timeout = 20, max_conn = 4,
               proxies = {(''9.9.9.9'', ''8080'', Tuple [''HTTP''])}\<rparr>,
       ext = (),
       logs = [(ERROR, Find_proxies_error ''example.org'' KeyError),
               (ERROR, Got_0_proxies ''http://example.org/'')],
       world = Suc 0\<rparr>)"
proof -
  let ?p = "\<lparr>domain = ''example.org'', url = None, proto = Tuple [''HTTP''],
              max_tries = 3, timeout = 20, max_conn = 4,
              proxies = {(''9.9.9.9'', ''8080'', Tuple [''HTTP''])}\<rparr>"
  let ?st = "\<lparr>self = ?p, ext = (), logs = [], world = 0::nat\<rparr>"
  let ?st1 = "\<lparr>self = ?p, ext = (), logs = [], world = Suc 0\<rparr>"
  let ?fp = "\<lambda>(page::string) (c::unit). (Inl KeyError :: exn + item list, c)"
  let ?net = "\<lambda>(tmo::int) (req::request) w. (Responded 200 (Inr ''1.2.3.4:80''), Suc w)"
  let ?req = "GET ''http://example.org/''"
  have g: "Provider_get ?net ?req ?st = (Inr ''1.2.3.4:80'', ?st1) \<and> ''1.2.3.4:80'' \<noteq> [] \<and>
      ?fp ''1.2.3.4:80'' (ext ?st1) = (Inl KeyError, ())"
    by (simp add: Provider_get_def get_def Provider__get_def eval_nat_numeral)
  from extraction_failure_contained[of ?net ?req ?st "''1.2.3.4:80''" ?st1 ?fp KeyError "()" "[]"] g
  show ?thesis by (simp add: GET_def)
qed

section \<open>Discovery of the last page\<close>

lemma last_page_no_match: "findall1 exp page = [] \<Longrightarrow> last_page exp page = Inl ValueError"
  by (simp add: last_page_def)

text \<open>
  The white space of \<^verbatim>\<open>\s*\<close> around the \<^verbatim>\<open>=\<close> of the \<^verbatim>\<open>Proxylist_me\<close> pattern may
  be a no-break space (U+00A0) or a next-line character (U+0085): the link is found.
\<close>

lemma Proxylist_me_exp_high_space:
  \<open>findall1 Proxylist_me_exp (''href'' @ [CHR 0xA0] @ ''="/?page=3"'') = [''3'']\<close>
  \<open>findall1 Proxylist_me_exp (''href ='' @ [CHR 0x85] @ ''"/?page=12"'') = [''12'']\<close>
  \<open>last_page Proxylist_me_exp (''href'' @ [CHR 0xA0] @ ''="/?page=3"'') = Inr 3\<close>
  by code_simp+

text \<open>
  Claim C6. \<^verbatim>\<open>Proxylist_me\<close>: when the fetch of the index page gives empty text, \<^verbatim>\<open>_pipe\<close>
  returns normally in the state the fetch left, so no further request was made and the
  provider is unchanged; when it gives a non-empty page in which the page pattern matches
  nowhere, \<^verbatim>\<open>_pipe\<close> raises the \<^verbatim>\<open>ValueError\<close> of \<^verbatim>\<open>max\<close> on the empty list.
  \<^verbatim>\<open>Gatherproxy_com\<close>: when the fetches of both tiers give empty text, \<^verbatim>\<open>_pipe\<close> returns
  normally in the state the second fetch left, with the provider unchanged; a non-empty
  page without a match makes \<^verbatim>\<open>_pipe\<close> raise \<^verbatim>\<open>ValueError\<close>, for the first tier and, when
  the first tier's page was empty or had a last page, for the second. A tier whose fetch
  gives empty text leaves the request list as it was.
\<close>

theorem discovery_empty_or_fatal:
  "(Provider_get net (GET ''https://proxylist.me/'') st = (Inr page, st1) \<longrightarrow>
      (page = [] \<longrightarrow>
         Proxylist_me__pipe find_proxies net st = (Inr (), st1) \<and> self st1 = self st) \<and>
      (page \<noteq> [] \<and> findall1 Proxylist_me_exp page = [] \<longrightarrow>
         Proxylist_me__pipe find_proxies net st = (Inl ValueError, st1))) \<and>
   (Provider_get net (Gatherproxy_com_request ''anonymous'' 1) st = (Inr page1, st1) \<longrightarrow>
      (page1 \<noteq> [] \<and> findall1 Gatherproxy_com_expNumPages page1 = [] \<longrightarrow>
         Gatherproxy_com__pipe find_proxies net st = (Inl ValueError, st1)) \<and>
      (Provider_get net (Gatherproxy_com_request ''elite'' 1) st1 = (Inr page2, st2) \<longrightarrow>
         (page1 = [] \<and> page2 = [] \<longrightarrow>
            Gatherproxy_com__pipe find_proxies net st = (Inr (), st2) \<and> self st2 = self st) \<and>
         ((page1 = [] \<or> last_page Gatherproxy_com_expNumPages page1 = Inr n) \<and>
          page2 \<noteq> [] \<and> findall1 Gatherproxy_com_expNumPages page2 = [] \<longrightarrow>
            Gatherproxy_com__pipe find_proxies net st = (Inl ValueError, st2)))) \<and>
   (Provider_get net (Gatherproxy_com_request t 1) st = (Inr [], st1) \<longrightarrow>
      Gatherproxy_com_urls net (t # ts) urls st = Gatherproxy_com_urls net ts urls st1)"
proof (intro conjI impI)
  assume g: "Provider_get net (GET ''https://proxylist.me/'') st = (Inr page, st1)"
  {
    assume "page = []"
    with g show "Proxylist_me__pipe find_proxies net st = (Inr (), st1)"
      by (simp add: Proxylist_me__pipe_def)
    from g Provider_get_self[of net "GET ''https://proxylist.me/''" st]
    show "self st1 = self st" by simp
  }
  {
    assume "page \<noteq> [] \<and> findall1 Proxylist_me_exp page = []"
    with g show "Proxylist_me__pipe find_proxies net st = (Inl ValueError, st1)"
      by (simp add: Proxylist_me__pipe_def last_page_no_match)
  }
next
  assume g1: "Provider_get net (Gatherproxy_com_request ''anonymous'' 1) st = (Inr page1, st1)"
  {
    assume "page1 \<noteq> [] \<and> findall1 Gatherproxy_com_expNumPages page1 = []"
    with g1 show "Gatherproxy_com__pipe find_proxies net st = (Inl ValueError, st1)"
      by (simp add: Gatherproxy_com__pipe_def last_page_no_match)
  }
  assume g2: "Provider_get net (Gatherproxy_com_request ''elite'' 1) st1 = (Inr page2, st2)"
  {
    assume "page1 = [] \<and> page2 = []"
    with g1 g2 show "Gatherproxy_com__pipe find_proxies net st = (Inr (), st2)"
      by (simp add: Gatherproxy_com__pipe_def Provider__find_on_pages_def)
    from g1 g2 Provider_get_self[of net "Gatherproxy_com_request ''anonymous'' 1" st]
      Provider_get_self[of net "Gatherproxy_com_request ''elite'' 1" st1]
    show "self st2 = self st" by simp
  }
  {
    assume "(page1 = [] \<or> last_page Gatherproxy_com_expNumPages page1 = Inr n) \<and>
          page2 \<noteq> [] \<and> findall1 Gatherproxy_com_expNumPages page2 = []"
    with g1 g2 show "Gatherproxy_com__pipe find_proxies net st = (Inl ValueError, st2)"
      by (auto simp: Gatherproxy_com__pipe_def last_page_no_match)
  }
next
  assume "Provider_get net (Gatherproxy_com_request t 1) st = (Inr [], st1)"
  then show "Gatherproxy_com_urls net (t # ts) urls st = Gatherproxy_com_urls net ts urls st1"
    by simp
qed

text \<open>
  A network that answers every request with status 200 and a counter as its state; the
  provider allows three attempts. With empty bodies \<^verbatim>\<open>Proxylist_me._pipe\<close> ends after the
  three attempts for the index page, \<^verbatim>\<open>Gatherproxy_com._pipe\<close> after three for each tier.
  With a body without page links, both raise \<^verbatim>\<open>ValueError\<close> after the first request;
  \<^verbatim>\<open>Gatherproxy_com._pipe\<close> also raises when only the second tier has such a body.
\<close>

theorem discovery_empty_or_fatal_witness:
  "Proxylist_me__pipe (\<lambda>page c. (Inr [], c))
     (\<lambda>tmo req w. (Responded 200 (Inr []), Suc w))
     \<lparr>self = Provider_init ''proxylist.me'' None (Tuple [''HTTP'']) 4 3 20,
      ext = (), logs = [], world = 0\<rparr> =
     (Inr (),
      \<lparr>self = Provider_init ''proxylist.me'' None (Tuple [''HTTP'']) 4 3 20,
       ext = (), logs = [], world = 3\<rparr>) \<and>
   Proxylist_me__pipe (\<lambda>page c. (Inr [], c))
     (\<lambda>tmo req w. (Responded 200 (Inr ''<html></html>''), Suc w))
     \<lparr>self = Provider_init ''proxylist.me'' None (Tuple [''HTTP'']) 4 3 20,
      ext = (), logs = [], world = 0\<rparr> =
     (Inl ValueError,
      \<lparr>self = Provider_init ''proxylist.me'' None (Tuple [''HTTP'']) 4 3 20,
       ext = (), logs = [], world = 1\<rparr>) \<and>
   Gatherproxy_com__pipe (\<lambda>page c. (Inr [], c))
     (\<lambda>tmo req w. (Responded 200 (Inr []), Suc w))
     \<lparr>self = Provider_init ''gatherproxy.com'' None (Tuple [''HTTP'']) 4 3 20,
      ext = (), logs = [], world = 0\<rparr> =
     (Inr (),
      \<lparr>self = Provider_init ''gatherproxy.com'' None (Tuple [''HTTP'']) 4 3 20,
       ext = (), logs = [], world = 6\<rparr>) \<and>
   Gatherproxy_com__pipe (\<lambda>page c. (Inr [], c))
     (\<lambda>tmo req w. (Responded 200 (Inr ''<html></html>''), Suc w))
     \<lparr>self = Provider_init ''gatherproxy.com'' None (Tuple [''HTTP'']) 4 3 20,
      ext = (), logs = [], world = 0\<rparr> =
     (Inl ValueError,
      \<lparr>self = Provider_init ''gatherproxy.com'' None (Tuple [''HTTP'']) 4 3 20,
       ext = (), logs = [], world = 1\<rparr>) \<and>
   Gatherproxy_com__pipe (\<lambda>page c. (Inr [], c))
     (\<lambda>tmo req w. (Responded 200 (Inr (if w < 3 then [] else ''<html></html>'')), Suc w))
     \<lparr>self = Provider_init ''gatherproxy.com'' None (Tuple [''HTTP'']) 4 3 20,
      ext = (), logs = [], world = 0\<rparr> =
     (Inl ValueError,
      \<lparr>self = Provider_init ''gatherproxy.com'' None (Tuple [''HTTP'']) 4 3 20,
       ext = (), logs = [], world = 4\<rparr>) \<and>
   Gatherproxy_com_urls (\<lambda>tmo req w. (Responded 200 (Inr []), Suc w))
     [''anonymous'', ''elite''] [Url ''kept'']
     \<lparr>self = Provider_init ''gatherproxy.com'' None (Tuple [''HTTP'']) 4 3 20,
      ext = (), logs = [], world = 0\<rparr> =
     (Inr [Url ''kept''],
      \<lparr>self = Provider_init ''gatherproxy.com'' None (Tuple [''HTTP'']) 4 3 20,
       ext = (), logs = [], world = 6\<rparr>)"
proof -
  let ?fp = "\<lambda>(page::string) (c::unit). (Inr [] :: exn + item list, c)"
  let ?n0 = "\<lambda>(tmo::int) (req::request) (w::nat). (Responded 200 (Inr []), Suc w)"
  let ?n1 = "\<lambda>(tmo::int) (req::request) (w::nat). (Responded 200 (Inr ''<html></html>''), Suc w)"
  let ?n2 = "\<lambda>(tmo::int) (req::request) (w::nat).
     (Responded 200 (Inr (if w < 3 then [] else ''<html></html>'')), Suc w)"
  let ?P = "Provider_init ''proxylist.me'' None (Tuple [''HTTP'']) 4 3 20"
  let ?G = "Provider_init ''gatherproxy.com'' None (Tuple [''HTTP'']) 4 3 20"
  let ?sp = "\<lambda>w::nat. \<lparr>self = ?P, ext = (), logs = [], world = w\<rparr>"
  let ?sg = "\<lambda>w::nat. \<lparr>self = ?G, ext = (), logs = [], world = w\<rparr>"
  note ev = Provider_get_def get_def Provider__get_def eval_nat_numeral Provider_init_def
  have np: "findall1 Proxylist_me_exp ''<html></html>'' = []" by code_simp
  have ng: "findall1 Gatherproxy_com_expNumPages ''<html></html>'' = []" by code_simp
  have p0: "Provider_get ?n0 (GET ''https://proxylist.me/'') (?sp 0) = (Inr [], ?sp 3)"
    by (simp add: ev)
  have p1: "Provider_get ?n1 (GET ''https://proxylist.me/'') (?sp 0) =
      (Inr ''<html></html>'', ?sp 1)"
    by (simp add: ev)
  have g0: "Provider_get ?n0 (Gatherproxy_com_request ''anonymous'' 1) (?sg 0) = (Inr [], ?sg 3)"
    "Provider_get ?n0 (Gatherproxy_com_request ''elite'' 1) (?sg 3) = (Inr [], ?sg 6)"
    by (simp_all add: ev)
  have g1: "Provider_get ?n1 (Gatherproxy_com_request ''anonymous'' 1) (?sg 0) =
      (Inr ''<html></html>'', ?sg 1)"
    by (simp add: ev)
  have g2: "Provider_get ?n2 (Gatherproxy_com_request ''anonymous'' 1) (?sg 0) = (Inr [], ?sg 3)"
    "Provider_get ?n2 (Gatherproxy_com_request ''elite'' 1) (?sg 3) =
      (Inr ''<html></html>'', ?sg 4)"
    by (simp_all add: ev)
  have a: "Proxylist_me__pipe ?fp ?n0 (?sp 0) = (Inr (), ?sp 3)"
    using discovery_empty_or_fatal[where net = ?n0 and st = "?sp 0" and page = "[]"
        and ?st1.0 = "?sp 3" and find_proxies = ?fp] p0
    by simp
  have b: "Proxylist_me__pipe ?fp ?n1 (?sp 0) = (Inl ValueError, ?sp 1)"
    using discovery_empty_or_fatal[where net = ?n1 and st = "?sp 0" and page = "''<html></html>''"
        and ?st1.0 = "?sp 1" and find_proxies = ?fp] p1 np
    by simp
  have c: "Gatherproxy_com__pipe ?fp ?n0 (?sg 0) = (Inr (), ?sg 6)"
    using discovery_empty_or_fatal[where net = ?n0 and st = "?sg 0" and ?page1.0 = "[]"
        and ?st1.0 = "?sg 3" and ?page2.0 = "[]" and ?st2.0 = "?sg 6" and find_proxies = ?fp] g0
    by simp
  have d: "Gatherproxy_com__pipe ?fp ?n1 (?sg 0) = (Inl ValueError, ?sg 1)"
    using discovery_empty_or_fatal[where net = ?n1 and st = "?sg 0"
        and ?page1.0 = "''<html></html>''" and ?st1.0 = "?sg 1" and find_proxies = ?fp] g1 ng
    by simp
  have e: "Gatherproxy_com__pipe ?fp ?n2 (?sg 0) = (Inl ValueError, ?sg 4)"
    using discovery_empty_or_fatal[where net = ?n2 and st = "?sg 0" and ?page1.0 = "[]"
        and ?st1.0 = "?sg 3" and ?page2.0 = "''<html></html>''" and ?st2.0 = "?sg 4"
        and find_proxies = ?fp] g2 ng
    by simp
  have f: "Gatherproxy_com_urls ?n0 [''anonymous'', ''elite''] [Url ''kept''] (?sg 0) =
      (Inr [Url ''kept''], ?sg 6)"
    using discovery_empty_or_fatal[where net = ?n0 and st = "?sg 0" and t = "''anonymous''"
        and ?st1.0 = "?sg 3" and ts = "[''elite'']" and urls = "[Url ''kept'']"] g0
    by simp
  from a b c d e f show ?thesis by simp
qed

section \<open>The tiers of \<^verbatim>\<open>Gatherproxy_com\<close>\<close>

text \<open>
  Claim C8 says that the request list of \<^verbatim>\<open>Gatherproxy_com._pipe\<close> holds the pages
  \<open>1..lastPage\<close> of every tier whose first page was fetched. The loop assigns
  \<^verbatim>\<open>urls = [...]\<close> in every turn, so the list of a tier replaces the list of the tier
  before it. Here the first page of the tier \<^verbatim>\<open>anonymous\<close> links to page 2 and the first
  page of the tier \<^verbatim>\<open>elite\<close> to page 1, each fetched at the first attempt: the claim asks
  for three requests (\<^verbatim>\<open>anonymous\<close> 1 and 2, \<^verbatim>\<open>elite\<close> 1), the loop ends with the one
  request of \<^verbatim>\<open>elite\<close>.
\<close>

theorem tiers_replace_each_other:
  \<open>last_page Gatherproxy_com_expNumPages ''<a href="#1">1</a><a href="#2">2</a>'' = Inr 2 \<and>
   last_page Gatherproxy_com_expNumPages ''<a href="#1">1</a>'' = Inr 1 \<and>
   Gatherproxy_com_urls
     (\<lambda>tmo req w.
        (Responded 200
           (Inr (if req_data req = Some [(''Type'', PStr ''anonymous''), (''PageIdx'', PInt 1)]
                 then ''<a href="#1">1</a><a href="#2">2</a>''
                 else ''<a href="#1">1</a>'')),
         Suc w))
     [''anonymous'', ''elite''] []
     \<lparr>self = Provider_init ''gatherproxy.com'' None (Tuple [''HTTP'']) 4 3 20,
      ext = (), logs = [], world = 0\<rparr> =
     (Inr [Kwargs (Gatherproxy_com_request ''elite'' 1)],
      \<lparr>self = Provider_init ''gatherproxy.com'' None (Tuple [''HTTP'']) 4 3 20,
       ext = (), logs = [], world = 2\<rparr>)\<close>
proof -
  have a: \<open>last_page Gatherproxy_com_expNumPages ''<a href="#1">1</a><a href="#2">2</a>'' = Inr 2\<close>
    by code_simp
  have b: \<open>last_page Gatherproxy_com_expNumPages ''<a href="#1">1</a>'' = Inr 1\<close>
    by code_simp
  show ?thesis
    by (simp add: a b Provider_get_def get_def Provider__get_def eval_nat_numeral
        Provider_init_def Gatherproxy_com_request_def)
qed

section \<open>Decoding the port ciphers\<close>

text \<open>
  Claim C7. \<^verbatim>\<open>Xseo_in\<close>: with the symbols \<^verbatim>\<open>a\<close>, \<^verbatim>\<open>b\<close>, \<^verbatim>\<open>c\<close> standing for 7, 2 and 9,
  the replacement function turns the characters \<^verbatim>\<open>a+b+c\<close> into \<^verbatim>\<open>729\<close>; on a page made of
  the table \<^verbatim>\<open>a=7;b=2;c=9;\<close> and the expression \<^verbatim>\<open>(""+a+b+c)\<close> the decoding writes
  \<^verbatim>\<open>729\<close> in place of the expression, and \<^verbatim>\<open>find_proxies\<close> is the baseline pattern run
  over the rewritten page, so that the port it finds behind the host is 729.
  \<^verbatim>\<open>Spys_ru\<close>: with \<^verbatim>\<open>abcd\<close> standing for 5 and \<^verbatim>\<open>efgh\<close> for 3, the group
  \<^verbatim>\<open>(abcd^efgh)\<close> gives the digit 6; on a page, the digits of the groups are written in
  the order of the groups; a definition by XOR is resolved against the definitions above
  it, and raises \<^verbatim>\<open>KeyError\<close> when its operand is only defined below.
\<close>

theorem cipher_decode:
  \<open>Xseo_in_char_js_port_to_num (tbl(''a'' \<mapsto> ''7'', ''b'' \<mapsto> ''2'', ''c'' \<mapsto> ''9''))
     [(1, ''a+b+c'')] = Inr ''729'' \<and>
   Xseo_in_decode ''a=7;b=2;c=9;(""+a+b+c)'' = Inr ''a=7;b=2;c=9;729'' \<and>
   fst (Xseo_in_find_proxies pattern_findall ''a=7;b=2;c=9;1.2.3.4:(""+a+b+c)'' charEqNum0) =
     Inr (pattern_findall ''a=7;b=2;c=9;1.2.3.4:729'') \<and>
   Spys_ru_digit (tbl'(''abcd'' \<mapsto> 5, ''efgh'' \<mapsto> 3)) ''(abcd^efgh)'' = Inr ''6'' \<and>
   fst (Spys_ru_decode ''>abcd=5;efgh=3;1.2.3.4:+(abcd^efgh)'' Map.empty) =
     Inr ''>abcd=5;efgh=3;1.2.3.4:6'' \<and>
   fst (Spys_ru_decode
          ''>abcd=5;efgh=3;ijkl=1;1.2.3.4:+(abcd^efgh)+(abcd^ijkl)+(efgh^ijkl)'' Map.empty) =
     Inr ''>abcd=5;efgh=3;ijkl=1;1.2.3.4:642'' \<and>
   fst (Spys_ru_decode ''>abcd=5;efgh=3^abcd;1.2.3.4:+(abcd^efgh)'' Map.empty) =
     Inr ''>abcd=5;efgh=3^abcd;1.2.3.4:3'' \<and>
   fst (Spys_ru_decode ''>efgh=3^abcd;abcd=5;1.2.3.4:+(abcd^efgh)'' Map.empty) = Inl KeyError\<close>
proof -
  have 1: "Xseo_in_char_js_port_to_num (tbl(''a'' \<mapsto> ''7'', ''b'' \<mapsto> ''2'', ''c'' \<mapsto> ''9''))
     [(1, ''a+b+c'')] = Inr ''729''"
    by (simp add: Xseo_in_char_js_port_to_num_def grp_def lookup_def)
  have 2: \<open>Xseo_in_decode ''a=7;b=2;c=9;(""+a+b+c)'' = Inr ''a=7;b=2;c=9;729''\<close>
    by code_simp
  have 3: \<open>Xseo_in_decode ''a=7;b=2;c=9;1.2.3.4:(""+a+b+c)'' = Inr ''a=7;b=2;c=9;1.2.3.4:729''\<close>
    by code_simp
  have 4: "Spys_ru_digit (tbl'(''abcd'' \<mapsto> 5, ''efgh'' \<mapsto> 3)) ''(abcd^efgh)'' = Inr ''6''"
    by (simp add: Spys_ru_digit_def strip_chars_def lookup_def str_int_def str_nat.simps)
  have 5: "fst (Spys_ru_decode ''>abcd=5;efgh=3;1.2.3.4:+(abcd^efgh)'' Map.empty) =
     Inr ''>abcd=5;efgh=3;1.2.3.4:6''"
    by code_simp
  have 6: "fst (Spys_ru_decode
          ''>abcd=5;efgh=3;ijkl=1;1.2.3.4:+(abcd^efgh)+(abcd^ijkl)+(efgh^ijkl)'' Map.empty) =
     Inr ''>abcd=5;efgh=3;ijkl=1;1.2.3.4:642''"
    by code_simp
  have 7: "fst (Spys_ru_decode ''>abcd=5;efgh=3^abcd;1.2.3.4:+(abcd^efgh)'' Map.empty) =
     Inr ''>abcd=5;efgh=3^abcd;1.2.3.4:3''"
    by code_simp
  have 8: "fst (Spys_ru_decode ''>efgh=3^abcd;abcd=5;1.2.3.4:+(abcd^efgh)'' Map.empty) =
     Inl KeyError"
    by code_simp
  from 1 2 3 4 5 6 7 8 show ?thesis
    by (simp add: Xseo_in_find_proxies_def)
qed

end
